theory Spec2Isabelle
  imports Complex_Main
begin

section \<open>The data model\<close>

subsection \<open>Values the nodes carry\<close>

text \<open>
  Exceptions of the source are values: every \<^verbatim>\<open>raise\<close> and every failing
  \<^verbatim>\<open>assert\<close>, subscript or dictionary lookup is an \<open>Inl\<close> result.
\<close>

datatype error =
  ValueError | AssertionError | KeyError | IndexError | TypeError | IbisTypeError

text \<open>
  \<^verbatim>\<open>bfet_ids.ColumnId\<close> is a name; \<^verbatim>\<open>bigframes.dtypes.Dtype\<close> is a type tag, of which
  the node model itself names only \<^verbatim>\<open>INT_DTYPE\<close>. A session object is known by its
  identity, \<^verbatim>\<open>bytes\<close> are a list of byte values.
\<close>

type_synonym ColumnId = string

datatype Dtype = INT_DTYPE | FLOAT_DTYPE | BOOL_DTYPE | STRING_DTYPE

type_synonym Session = nat

type_synonym Field = "ColumnId \<times> Dtype"

text \<open>
  The expression subsystem (\<^verbatim>\<open>bigframes.core.expression\<close>, \<^verbatim>\<open>ordering\<close>,
  \<^verbatim>\<open>window_spec\<close>, \<^verbatim>\<open>operations.aggregations\<close>) is outside the sources. Its objects
  are opaque values here: a label that tells them apart, and the column references the
  node model reads from them. Their typing methods are the parameters collected in
  \<open>externals\<close> below.
\<close>

datatype DerefOp = DerefOp (deref_id: ColumnId)

datatype Expression = Expression (expr_label: string) (column_references: "ColumnId list")

datatype Aggregation = Aggregation (agg_label: string) (agg_column_references: "ColumnId list")

datatype OrderingExpression =
  OrderingExpression (referenced_columns: "ColumnId list") (ascending: bool) (na_last: bool)

datatype UnaryWindowOp = UnaryWindowOp (op_label: string)

datatype WindowSpec = WindowSpec (spec_label: string)

datatype RowOrdering =
  RowOrdering (ordering_value_columns: "OrderingExpression list")
    (is_total_ordering: bool) (is_sequential: bool)

datatype JoinType = Inner | Outer | Left | Right | Cross

record ScanItem =
  item_id :: ColumnId
  item_dtype :: Dtype
  source_id :: string

datatype ScanList = ScanList (items: "ScanItem list")

record SchemaField =
  field_name :: string
  field_type :: string

record GbqTable =
  project_id :: string
  dataset_id :: string
  table_id :: string
  physical_schema :: "SchemaField list"
  n_rows :: int
  is_physical_table :: bool
  cluster_cols :: "string list option"

record BigqueryDataSource =
  table :: GbqTable
  at_time :: "nat option"
  sql_predicate :: "string option"
  ordering :: "RowOrdering option"

subsection \<open>Ibis expressions\<close>

text \<open>
  The join compiler (\<^verbatim>\<open>single_column.py\<close>) and the default ordering
  (\<^verbatim>\<open>default_ordering.py\<close>) build expressions of the ibis library. The data types are known to
  the sources through the predicates \<^verbatim>\<open>is_string\<close>, \<^verbatim>\<open>is_numeric\<close>, \<^verbatim>\<open>is_boolean\<close>,
  \<^verbatim>\<open>is_binary\<close>, \<^verbatim>\<open>is_temporal\<close> and \<^verbatim>\<open>is_geospatial\<close>.
\<close>

datatype IbisDtype =
    Int64 | Float64 | Decimal | Boolean | Binary | Timestamp | Date | Time | String
  | GeoSpatial | JSON | Struct | Array

definition is_string :: "IbisDtype \<Rightarrow> bool" where
  "is_string t = (t = String)"

definition is_numeric :: "IbisDtype \<Rightarrow> bool" where
  "is_numeric t = (t = Int64 \<or> t = Float64 \<or> t = Decimal)"

definition is_boolean :: "IbisDtype \<Rightarrow> bool" where
  "is_boolean t = (t = Boolean)"

definition is_binary :: "IbisDtype \<Rightarrow> bool" where
  "is_binary t = (t = Binary)"

definition is_temporal :: "IbisDtype \<Rightarrow> bool" where
  "is_temporal t = (t = Timestamp \<or> t = Date \<or> t = Time)"

definition is_geospatial :: "IbisDtype \<Rightarrow> bool" where
  "is_geospatial t = (t = GeoSpatial)"

text \<open>
  Table expressions and value expressions, as the operations that the sources apply build
  them: \<^verbatim>\<open>table[name]\<close>, \<^verbatim>\<open>literal\<close>, \<^verbatim>\<open>cast\<close>, \<^verbatim>\<open>fillna\<close>/\<^verbatim>\<open>fill_null\<close>, \<^verbatim>\<open>as_text\<close>,
  \<^verbatim>\<open>ToJsonString\<close>, \<^verbatim>\<open>replace\<close>, \<^verbatim>\<open>concat\<close> (also written \<^verbatim>\<open>+\<close> on strings), \<^verbatim>\<open>hash\<close>,
  \<^verbatim>\<open>ibis.random()\<close>, \<^verbatim>\<open>name\<close>, \<^verbatim>\<open>==\<close>, and \<^verbatim>\<open>ibis.join\<close>. A column reference carries the
  type that the table's schema gives the column.
\<close>

datatype IbisTable =
    UnboundTable string "(string \<times> IbisDtype) list"
  | Project IbisTable "(string \<times> IbisValue) list"
  | JoinChain IbisTable IbisTable "IbisValue list" JoinType
and IbisValue =
    TableColumn IbisTable string IbisDtype
  | Literal string
  | Cast IbisValue IbisDtype
  | FillNull IbisValue IbisValue
  | GeoAsText IbisValue
  | ToJsonString IbisValue
  | StringReplace IbisValue string string
  | StringConcat "IbisValue list"
  | Hash IbisValue
  | RandomScalar
  | Alias IbisValue string
  | Equals IbisValue IbisValue

subsection \<open>Compiled expressions\<close>

text \<open>
  \<^verbatim>\<open>bigframes.core.compile.compiled\<close> is outside the sources. Of a compiled expression the
  join compiler reads the table, the columns with their names (\<^verbatim>\<open>col.get_name()\<close>,
  \<^verbatim>\<open>column_ids\<close>), and of an ordered one also the hidden ordering columns with their names
  and the ordering, here the sequence of its ordering expressions.
\<close>

record UnorderedIR =
  ir_table :: IbisTable
  ir_columns :: "(string \<times> IbisValue) list"

record OrderedIR = UnorderedIR +
  hidden_ordering_columns :: "(string \<times> IbisValue) list"
  ir_ordering :: "OrderingExpression list"

text \<open>
  The values of the warehouse engine, and what is left to the engine when an expression
  is evaluated (see \<open>eval\<close> below): the result of a cast, of the text form of a geography
  and of a JSON string on a given value, the hash function, and the random draw.
\<close>

datatype SqlValue = SNull | SString string | SInt int | SBool bool

record engine =
  cast_value :: "IbisDtype \<Rightarrow> SqlValue \<Rightarrow> SqlValue"
  st_astext :: "SqlValue \<Rightarrow> SqlValue"
  to_json_string :: "SqlValue \<Rightarrow> SqlValue"
  string_hash :: "string \<Rightarrow> int"
  random_draw :: SqlValue

section \<open>The IR node model of \<^verbatim>\<open>bigframes/core/nodes.py\<close>\<close>

subsection \<open>The node classes\<close>

text \<open>
  One constructor per concrete dataclass; the arguments are the dataclass fields in
  declaration order (inherited fields first). \<^verbatim>\<open>RandomSampleNode.fraction\<close> is a float
  that no operation below computes with; it is carried as a real number.
\<close>

datatype BigFrameNode =
    JoinNode BigFrameNode BigFrameNode "(DerefOp \<times> DerefOp) list" JoinType
  | ConcatNode "BigFrameNode list"
  | FromRangeNode BigFrameNode BigFrameNode int
  | ReadLocalNode "nat list" "(string \<times> Dtype) list" int ScanList "Session option"
  | ReadTableNode BigqueryDataSource ScanList Session
  | CachedTableNode BigqueryDataSource ScanList Session BigFrameNode
  | PromoteOffsetsNode BigFrameNode ColumnId
  | FilterNode BigFrameNode Expression
  | OrderByNode BigFrameNode "OrderingExpression list"
  | ReversedNode BigFrameNode bool
  | SelectionNode BigFrameNode "(DerefOp \<times> ColumnId) list"
  | ProjectionNode BigFrameNode "(Expression \<times> ColumnId) list"
  | RowCountNode BigFrameNode
  | AggregateNode BigFrameNode "(Aggregation \<times> ColumnId) list" "DerefOp list" bool
  | WindowOpNode BigFrameNode DerefOp UnaryWindowOp WindowSpec ColumnId bool bool
  | ReprojectOpNode BigFrameNode
  | RandomSampleNode BigFrameNode real
  | ExplodeNode BigFrameNode "DerefOp list"

text \<open>
  The typing functions of the modules outside the sources, as parameters:
  \<^verbatim>\<open>Expression.output_type\<close> and \<^verbatim>\<open>Aggregation.output_type\<close> (given the input types; they
  raise \<^verbatim>\<open>TypeError\<close> when invalid, here \<open>None\<close>), \<^verbatim>\<open>UnaryWindowOp.output_type\<close>,
  \<^verbatim>\<open>bigframes.dtypes.dtype_for_etype\<close>, and the element type of an array dtype that
  \<^verbatim>\<open>ExplodeNode.fields\<close> reads through \<^verbatim>\<open>pyarrow_dtype.value_type\<close>.
\<close>

record externals =
  expr_output_type :: "Expression \<Rightarrow> (ColumnId \<rightharpoonup> Dtype) \<Rightarrow> Dtype option"
  agg_output_type :: "Aggregation \<Rightarrow> (ColumnId \<rightharpoonup> Dtype) \<Rightarrow> Dtype option"
  op_output_type :: "UnaryWindowOp \<Rightarrow> Dtype \<Rightarrow> Dtype option"
  dtype_for_etype :: "Dtype \<Rightarrow> Dtype"
  array_value_type :: "Dtype \<Rightarrow> Dtype option"

subsection \<open>Helpers for results that may raise\<close>

definition bind_err :: "error + 'a \<Rightarrow> ('a \<Rightarrow> error + 'b) \<Rightarrow> error + 'b" where
  "bind_err m f = (case m of Inl e \<Rightarrow> Inl e | Inr x \<Rightarrow> f x)"

text \<open>A comprehension whose element expression may raise stops at the first raise.\<close>

fun map_err :: "('a \<Rightarrow> error + 'b) \<Rightarrow> 'a list \<Rightarrow> error + 'b list" where
  "map_err f [] = Inr []"
| "map_err f (x # xs) =
     (case f x of Inl e \<Rightarrow> Inl e
      | Inr y \<Rightarrow> (case map_err f xs of Inl e \<Rightarrow> Inl e | Inr ys \<Rightarrow> Inr (y # ys)))"

definition of_option :: "error \<Rightarrow> 'a option \<Rightarrow> error + 'a" where
  "of_option e v = (case v of None \<Rightarrow> Inl e | Some x \<Rightarrow> Inr x)"

text \<open>
  \<^verbatim>\<open>_dtype_lookup\<close> is \<^verbatim>\<open>{field.id: field.dtype for field in self.fields}\<close>: of two fields
  with one id the later one stays. \<^verbatim>\<open>get_type\<close> subscripts it and raises
  \<^verbatim>\<open>KeyError\<close> for an id that is not there.
\<close>

definition dtype_lookup :: "Field list \<Rightarrow> (ColumnId \<rightharpoonup> Dtype)" where
  "dtype_lookup fs = map_of (rev fs)"

definition get_type :: "Field list \<Rightarrow> ColumnId \<Rightarrow> error + Dtype" where
  "get_type fs i = of_option KeyError (dtype_lookup fs i)"

text \<open>Decimal text of a natural number, for \<^verbatim>\<open>f"column_{i}"\<close>.\<close>

fun str_nat :: "nat \<Rightarrow> string" where
  "str_nat n =
     (if n < 10 then [''0123456789'' ! n]
      else str_nat (n div 10) @ [''0123456789'' ! (n mod 10)])"

declare str_nat.simps [simp del]

subsection \<open>\<^verbatim>\<open>fields\<close>\<close>

definition scan_fields :: "ScanList \<Rightarrow> Field list" where
  "scan_fields sl = map (\<lambda>it. (item_id it, item_dtype it)) (items sl)"

fun fields :: "externals \<Rightarrow> BigFrameNode \<Rightarrow> error + Field list" where
  "fields X (JoinNode l r conds t) =
     (case fields X l of Inl e \<Rightarrow> Inl e
      | Inr lf \<Rightarrow> (case fields X r of Inl e \<Rightarrow> Inl e | Inr rf \<Rightarrow> Inr (lf @ rf)))"
| "fields X (ConcatNode []) = Inl IndexError"
| "fields X (ConcatNode (c # cs)) =
     (case fields X c of Inl e \<Rightarrow> Inl e
      | Inr cf \<Rightarrow>
          Inr (map (\<lambda>(i, f). (''column_'' @ str_nat i, snd f)) (enumerate 0 cf)))"
| "fields X (FromRangeNode s e step) =
     (case fields X s of Inl er \<Rightarrow> Inl er
      | Inr [] \<Rightarrow> Inl IndexError
      | Inr (f # _) \<Rightarrow> Inr [(''labels'', snd f)])"
| "fields X (ReadLocalNode fb ds n sl sess) = Inr (scan_fields sl)"
| "fields X (ReadTableNode src sl sess) = Inr (scan_fields sl)"
| "fields X (CachedTableNode src sl sess orig) = Inr (scan_fields sl)"
| "fields X (PromoteOffsetsNode c col) =
     (case fields X c of Inl e \<Rightarrow> Inl e | Inr cf \<Rightarrow> Inr (cf @ [(col, INT_DTYPE)]))"
| "fields X (FilterNode c p) = fields X c"
| "fields X (OrderByNode c by) = fields X c"
| "fields X (ReversedNode c b) = fields X c"
| "fields X (SelectionNode c pairs) =
     (case fields X c of Inl e \<Rightarrow> Inl e
      | Inr cf \<Rightarrow>
          map_err (\<lambda>(inp, out).
            case get_type cf (deref_id inp) of Inl e \<Rightarrow> Inl e | Inr d \<Rightarrow> Inr (out, d)) pairs)"
| "fields X (ProjectionNode c assignments) =
     (case fields X c of Inl e \<Rightarrow> Inl e
      | Inr cf \<Rightarrow>
          (case map_err (\<lambda>(ex, i).
                  case expr_output_type X ex (dtype_lookup cf) of
                    None \<Rightarrow> Inl TypeError
                  | Some d \<Rightarrow> Inr (i, dtype_for_etype X d)) assignments of
             Inl e \<Rightarrow> Inl e
           | Inr new_fields \<Rightarrow> Inr (cf @ new_fields)))"
| "fields X (RowCountNode c) = Inr [(''count'', INT_DTYPE)]"
| "fields X (AggregateNode c aggregations by_column_ids dropna) =
     (case fields X c of Inl e \<Rightarrow> Inl e
      | Inr cf \<Rightarrow>
          (case map_err (\<lambda>ref.
                  case get_type cf (deref_id ref) of
                    Inl e \<Rightarrow> Inl e | Inr d \<Rightarrow> Inr (deref_id ref, d)) by_column_ids of
             Inl e \<Rightarrow> Inl e
           | Inr by_items \<Rightarrow>
               (case map_err (\<lambda>(agg, i).
                       case agg_output_type X agg (dtype_lookup cf) of
                         None \<Rightarrow> Inl TypeError
                       | Some d \<Rightarrow> Inr (i, dtype_for_etype X d)) aggregations of
                  Inl e \<Rightarrow> Inl e
                | Inr agg_items \<Rightarrow> Inr (by_items @ agg_items))))"
| "fields X (WindowOpNode c column_name op spec output_name nsn sru) =
     (case fields X c of Inl e \<Rightarrow> Inl e
      | Inr cf \<Rightarrow>
          (case get_type cf (deref_id column_name) of Inl e \<Rightarrow> Inl e
           | Inr input_type \<Rightarrow>
               (case op_output_type X op input_type of
                  None \<Rightarrow> Inl TypeError
                | Some new_item_dtype \<Rightarrow> Inr (cf @ [(output_name, new_item_dtype)]))))"
| "fields X (ReprojectOpNode c) = fields X c"
| "fields X (RandomSampleNode c fraction) = fields X c"
| "fields X (ExplodeNode c column_ids) =
     (case fields X c of Inl e \<Rightarrow> Inl e
      | Inr cf \<Rightarrow>
          map_err (\<lambda>f.
            if fst f \<in> set (map deref_id column_ids)
            then (case get_type cf (fst f) of Inl e \<Rightarrow> Inl e
                  | Inr d \<Rightarrow> (case array_value_type X d of
                                None \<Rightarrow> Inl TypeError
                              | Some v \<Rightarrow> Inr (fst f, v)))
            else Inr f) cf)"

text \<open>\<^verbatim>\<open>ids\<close>, \<^verbatim>\<open>schema.names\<close> and \<^verbatim>\<open>schema.dtypes\<close> read the fields.\<close>

definition ids :: "externals \<Rightarrow> BigFrameNode \<Rightarrow> error + ColumnId list" where
  "ids X n = (case fields X n of Inl e \<Rightarrow> Inl e | Inr fs \<Rightarrow> Inr (map fst fs))"

definition schema_dtypes :: "externals \<Rightarrow> BigFrameNode \<Rightarrow> error + Dtype list" where
  "schema_dtypes X n = (case fields X n of Inl e \<Rightarrow> Inl e | Inr fs \<Rightarrow> Inr (map snd fs))"

subsection \<open>Construction: the \<^verbatim>\<open>__post_init__\<close> checks\<close>

text \<open>
  A dataclass constructor runs \<^verbatim>\<open>__post_init__\<close>; so does \<^verbatim>\<open>dataclasses.replace\<close>.
  \<^verbatim>\<open>JoinNode\<close> asserts that the ids of its two children do not collide.
\<close>

definition mk_JoinNode ::
  "externals \<Rightarrow> BigFrameNode \<Rightarrow> BigFrameNode \<Rightarrow> (DerefOp \<times> DerefOp) list \<Rightarrow> JoinType
     \<Rightarrow> error + BigFrameNode" where
  "mk_JoinNode X l r conds t =
     (case ids X l of Inl e \<Rightarrow> Inl e
      | Inr li \<Rightarrow>
          (case ids X r of Inl e \<Rightarrow> Inl e
           | Inr ri \<Rightarrow>
               if set li \<inter> set ri \<noteq> {} then Inl AssertionError
               else Inr (JoinNode l r conds t)))"

text \<open>
  \<^verbatim>\<open>ConcatNode\<close> raises for no children, and when the set of the children's
  \<^verbatim>\<open>schema.dtypes\<close> tuples does not have exactly one element.
\<close>

definition mk_ConcatNode :: "externals \<Rightarrow> BigFrameNode list \<Rightarrow> error + BigFrameNode" where
  "mk_ConcatNode X children =
     (if length children = 0 then Inl ValueError
      else (case map_err (schema_dtypes X) children of
              Inl e \<Rightarrow> Inl e
            | Inr child_schemas \<Rightarrow>
                if \<not> length (remdups child_schemas) = 1 then Inl ValueError
                else Inr (ConcatNode children)))"

text \<open>
  \<^verbatim>\<open>ReadTableNode\<close> (and \<^verbatim>\<open>CachedTableNode\<close>, which inherits the check) raises when a
  scanned source id is not a column name of the physical schema.
\<close>

definition scan_list_ok :: "BigqueryDataSource \<Rightarrow> ScanList \<Rightarrow> bool" where
  "scan_list_ok src sl =
     (set (map source_id (items sl)) \<subseteq> set (map field_name (physical_schema (table src))))"

definition mk_ReadTableNode ::
  "BigqueryDataSource \<Rightarrow> ScanList \<Rightarrow> Session \<Rightarrow> error + BigFrameNode" where
  "mk_ReadTableNode src sl sess =
     (if \<not> scan_list_ok src sl then Inl ValueError else Inr (ReadTableNode src sl sess))"

definition mk_CachedTableNode ::
  "BigqueryDataSource \<Rightarrow> ScanList \<Rightarrow> Session \<Rightarrow> BigFrameNode \<Rightarrow> error + BigFrameNode" where
  "mk_CachedTableNode src sl sess orig =
     (if \<not> scan_list_ok src sl then Inl ValueError
      else Inr (CachedTableNode src sl sess orig))"

text \<open>
  \<^verbatim>\<open>ProjectionNode\<close> types every assignment against the child's dtypes, then asserts
  \<^verbatim>\<open>all(name not in self.child.schema.names for _, name in self.assignments)\<close>. Here
  \<^verbatim>\<open>name\<close> is the \<^verbatim>\<open>ColumnId\<close> object of the assignment, while the names of a schema are
  the strings \<^verbatim>\<open>i.id.name\<close> of the fields. The test \<^verbatim>\<open>in\<close> compares with \<^verbatim>\<open>==\<close>, and a
  \<^verbatim>\<open>ColumnId\<close> object and a string are two kinds of object that never compare equal, also
  when the string is the name of the \<^verbatim>\<open>ColumnId\<close>.
\<close>

datatype py_object = ColumnId_object ColumnId | str_object string

definition schema_names :: "Field list \<Rightarrow> string list" where
  "schema_names fs = map fst fs"

definition mk_ProjectionNode ::
  "externals \<Rightarrow> BigFrameNode \<Rightarrow> (Expression \<times> ColumnId) list \<Rightarrow> error + BigFrameNode" where
  "mk_ProjectionNode X child assignments =
     (case fields X child of Inl e \<Rightarrow> Inl e
      | Inr cf \<Rightarrow>
          (case map_err (\<lambda>(ex, i).
                  case expr_output_type X ex (dtype_lookup cf) of
                    None \<Rightarrow> Inl TypeError | Some d \<Rightarrow> Inr d) assignments of
             Inl e \<Rightarrow> Inl e
           | Inr _ \<Rightarrow>
               if list_all (\<lambda>(ex, name).
                     ColumnId_object name \<notin> set (map str_object (schema_names cf))) assignments
               then Inr (ProjectionNode child assignments)
               else Inl AssertionError))"

subsection \<open>\<^verbatim>\<open>child_nodes\<close> and \<^verbatim>\<open>row_count\<close>\<close>

fun child_nodes :: "BigFrameNode \<Rightarrow> BigFrameNode list" where
  "child_nodes (JoinNode l r conds t) = [l, r]"
| "child_nodes (ConcatNode children) = children"
| "child_nodes (FromRangeNode s e step) = [s, e]"
| "child_nodes (ReadLocalNode fb ds n sl sess) = []"
| "child_nodes (ReadTableNode src sl sess) = []"
| "child_nodes (CachedTableNode src sl sess orig) = []"
| "child_nodes (PromoteOffsetsNode c col) = [c]"
| "child_nodes (FilterNode c p) = [c]"
| "child_nodes (OrderByNode c by) = [c]"
| "child_nodes (ReversedNode c b) = [c]"
| "child_nodes (SelectionNode c pairs) = [c]"
| "child_nodes (ProjectionNode c assignments) = [c]"
| "child_nodes (RowCountNode c) = [c]"
| "child_nodes (AggregateNode c aggregations by_column_ids dropna) = [c]"
| "child_nodes (WindowOpNode c column_name op spec output_name nsn sru) = [c]"
| "child_nodes (ReprojectOpNode c) = [c]"
| "child_nodes (RandomSampleNode c fraction) = [c]"
| "child_nodes (ExplodeNode c column_ids) = [c]"

text \<open>
  \<^verbatim>\<open>row_count\<close> is a property of the leaf classes; \<open>None\<close> is Python's \<^verbatim>\<open>None\<close>
  (unknown). The outer option is \<open>None\<close> for a class that has no such property.
\<close>

fun row_count :: "BigFrameNode \<Rightarrow> int option option" where
  "row_count (ReadLocalNode fb ds n sl sess) = Some (Some n)"
| "row_count (ReadTableNode src sl sess) =
     Some (if sql_predicate src = None \<and> is_physical_table (table src)
           then Some (n_rows (table src)) else None)"
| "row_count (CachedTableNode src sl sess orig) =
     Some (if sql_predicate src = None \<and> is_physical_table (table src)
           then Some (n_rows (table src)) else None)"
| "row_count _ = None"

subsection \<open>\<^verbatim>\<open>prune\<close>\<close>

definition prune_scan_list :: "ScanList \<Rightarrow> ColumnId set \<Rightarrow> ScanList" where
  "prune_scan_list sl used_cols = ScanList (filter (\<lambda>item. item_id item \<in> used_cols) (items sl))"

definition join_key_ids :: "(DerefOp \<times> DerefOp) list \<Rightarrow> ColumnId list" where
  "join_key_ids conds = map deref_id (concat (map (\<lambda>(a, b). [a, b]) conds))"

text \<open>
  The classes that do not override \<^verbatim>\<open>prune\<close> (\<^verbatim>\<open>ReversedNode\<close>, \<^verbatim>\<open>RowCountNode\<close>,
  \<^verbatim>\<open>ReprojectOpNode\<close>, \<^verbatim>\<open>RandomSampleNode\<close>) run the inherited
  \<^verbatim>\<open>self.transform_children(lambda x: x.prune(used_cols))\<close>, which for a unary node is
  \<^verbatim>\<open>replace(self, child=t(self.child))\<close>; it is written out in their equations.
\<close>

fun prune :: "externals \<Rightarrow> BigFrameNode \<Rightarrow> ColumnId set \<Rightarrow> error + BigFrameNode" where
  "prune X (JoinNode l r conds t) used_cols =
     (let new_used = used_cols \<union> set (join_key_ids conds) in
      case prune X l new_used of Inl e \<Rightarrow> Inl e
      | Inr l' \<Rightarrow>
          (case prune X r new_used of Inl e \<Rightarrow> Inl e
           | Inr r' \<Rightarrow> mk_JoinNode X l' r' conds t))"
| "prune X (ConcatNode children) used_cols = Inr (ConcatNode children)"
| "prune X (FromRangeNode s e step) used_cols = Inr (FromRangeNode s e step)"
| "prune X (ReadLocalNode fb ds n sl sess) used_cols =
     Inr (ReadLocalNode fb ds n (prune_scan_list sl used_cols) sess)"
| "prune X (ReadTableNode src sl sess) used_cols =
     mk_ReadTableNode src (prune_scan_list sl used_cols) sess"
| "prune X (CachedTableNode src sl sess orig) used_cols =
     mk_CachedTableNode src (prune_scan_list sl used_cols) sess orig"
| "prune X (PromoteOffsetsNode c col_id) used_cols =
     (if col_id \<notin> used_cols then prune X c used_cols
      else (let new_used = used_cols - {col_id} in
            case prune X c new_used of Inl e \<Rightarrow> Inl e
            | Inr c' \<Rightarrow> Inr (PromoteOffsetsNode c' col_id)))"
| "prune X (FilterNode c predicate) used_cols =
     (let consumed_ids = used_cols \<union> set (column_references predicate) in
      case prune X c consumed_ids of Inl e \<Rightarrow> Inl e
      | Inr pruned_child \<Rightarrow> Inr (FilterNode pruned_child predicate))"
| "prune X (OrderByNode c by) used_cols =
     (let ordering_cols = concat (map referenced_columns by);
          consumed_ids = used_cols \<union> set ordering_cols in
      case prune X c consumed_ids of Inl e \<Rightarrow> Inl e
      | Inr pruned_child \<Rightarrow> Inr (OrderByNode pruned_child by))"
| "prune X (ReversedNode c b) used_cols =
     (case prune X c used_cols of Inl e \<Rightarrow> Inl e | Inr c' \<Rightarrow> Inr (ReversedNode c' b))"
| "prune X (SelectionNode c input_output_pairs) used_cols =
     (let pruned_selections = filter (\<lambda>select. snd select \<in> used_cols) input_output_pairs;
          consumed_ids = set (map (\<lambda>i. deref_id (fst i)) pruned_selections) in
      case prune X c consumed_ids of Inl e \<Rightarrow> Inl e
      | Inr pruned_child \<Rightarrow> Inr (SelectionNode pruned_child pruned_selections))"
| "prune X (ProjectionNode c assignments) used_cols =
     (let pruned_assignments = filter (\<lambda>i. snd i \<in> used_cols) assignments in
      if length pruned_assignments = 0 then prune X c used_cols
      else (let consumed_ids = concat (map (\<lambda>i. column_references (fst i)) pruned_assignments) in
            case prune X c (used_cols \<union> set consumed_ids) of Inl e \<Rightarrow> Inl e
            | Inr pruned_child \<Rightarrow> mk_ProjectionNode X pruned_child pruned_assignments))"
| "prune X (RowCountNode c) used_cols =
     (case prune X c used_cols of Inl e \<Rightarrow> Inl e | Inr c' \<Rightarrow> Inr (RowCountNode c'))"
| "prune X (AggregateNode c aggregations by_column_ids dropna) used_cols =
     (let by_ids = map deref_id by_column_ids;
          pruned_aggs = filter (\<lambda>agg. snd agg \<in> used_cols) aggregations;
          agg_inputs = concat (map (\<lambda>agg. agg_column_references (fst agg)) pruned_aggs);
          consumed_ids = set (by_ids @ agg_inputs) in
      case prune X c consumed_ids of Inl e \<Rightarrow> Inl e
      | Inr pruned_child \<Rightarrow> Inr (AggregateNode pruned_child pruned_aggs by_column_ids dropna))"
| "prune X (WindowOpNode c column_name op spec output_name nsn sru) used_cols =
     (if output_name \<notin> used_cols then Inr c
      else (let consumed_ids = (used_cols - {output_name}) \<union> {deref_id column_name} in
            case prune X c consumed_ids of Inl e \<Rightarrow> Inl e
            | Inr c' \<Rightarrow> Inr (WindowOpNode c' column_name op spec output_name nsn sru)))"
| "prune X (ReprojectOpNode c) used_cols =
     (case prune X c used_cols of Inl e \<Rightarrow> Inl e | Inr c' \<Rightarrow> Inr (ReprojectOpNode c'))"
| "prune X (RandomSampleNode c fraction) used_cols =
     (case prune X c used_cols of Inl e \<Rightarrow> Inl e | Inr c' \<Rightarrow> Inr (RandomSampleNode c' fraction))"
| "prune X (ExplodeNode c column_ids) used_cols =
     (case prune X c (used_cols \<union> set (map deref_id column_ids)) of Inl e \<Rightarrow> Inl e
      | Inr c' \<Rightarrow> Inr (ExplodeNode c' column_ids))"

subsection \<open>Equality and hashing\<close>

text \<open>
  \<^verbatim>\<open>_as_tuple\<close> is \<^verbatim>\<open>tuple(getattr(self, field.name) for field in fields(self))\<close>, where
  \<^verbatim>\<open>fields\<close> is \<^verbatim>\<open>dataclasses.fields\<close>: every dataclass field of the node, in declaration
  order. A tuple element is one of the following values.
\<close>

datatype Attr =
    ANode BigFrameNode
  | ANodes "BigFrameNode list"
  | AConditions "(DerefOp \<times> DerefOp) list"
  | AJoinType JoinType
  | AInt int
  | ABytes "nat list"
  | ASchema "(string \<times> Dtype) list"
  | AScanList ScanList
  | ASessionOpt "Session option"
  | ASource BigqueryDataSource
  | ASession Session
  | AColumnId ColumnId
  | AExpression Expression
  | AOrderBy "OrderingExpression list"
  | ABool bool
  | ASelections "(DerefOp \<times> ColumnId) list"
  | AAssignments "(Expression \<times> ColumnId) list"
  | AAggregations "(Aggregation \<times> ColumnId) list"
  | ADerefs "DerefOp list"
  | ADeref DerefOp
  | AWindowOp UnaryWindowOp
  | AWindowSpec WindowSpec
  | AFloat real

fun as_tuple :: "BigFrameNode \<Rightarrow> Attr list" where
  "as_tuple (JoinNode l r conds t) = [ANode l, ANode r, AConditions conds, AJoinType t]"
| "as_tuple (ConcatNode children) = [ANodes children]"
| "as_tuple (FromRangeNode s e step) = [ANode s, ANode e, AInt step]"
| "as_tuple (ReadLocalNode fb ds n sl sess) =
     [ABytes fb, ASchema ds, AInt n, AScanList sl, ASessionOpt sess]"
| "as_tuple (ReadTableNode src sl sess) = [ASource src, AScanList sl, ASession sess]"
| "as_tuple (CachedTableNode src sl sess orig) =
     [ASource src, AScanList sl, ASession sess, ANode orig]"
| "as_tuple (PromoteOffsetsNode c col) = [ANode c, AColumnId col]"
| "as_tuple (FilterNode c p) = [ANode c, AExpression p]"
| "as_tuple (OrderByNode c by) = [ANode c, AOrderBy by]"
| "as_tuple (ReversedNode c b) = [ANode c, ABool b]"
| "as_tuple (SelectionNode c pairs) = [ANode c, ASelections pairs]"
| "as_tuple (ProjectionNode c assignments) = [ANode c, AAssignments assignments]"
| "as_tuple (RowCountNode c) = [ANode c]"
| "as_tuple (AggregateNode c aggregations by_column_ids dropna) =
     [ANode c, AAggregations aggregations, ADerefs by_column_ids, ABool dropna]"
| "as_tuple (WindowOpNode c column_name op spec output_name nsn sru) =
     [ANode c, ADeref column_name, AWindowOp op, AWindowSpec spec, AColumnId output_name,
      ABool nsn, ABool sru]"
| "as_tuple (ReprojectOpNode c) = [ANode c]"
| "as_tuple (RandomSampleNode c fraction) = [ANode c, AFloat fraction]"
| "as_tuple (ExplodeNode c column_ids) = [ANode c, ADerefs column_ids]"

datatype NodeClass =
    JoinNode_cls | ConcatNode_cls | FromRangeNode_cls | ReadLocalNode_cls | ReadTableNode_cls
  | CachedTableNode_cls | PromoteOffsetsNode_cls | FilterNode_cls | OrderByNode_cls
  | ReversedNode_cls | SelectionNode_cls | ProjectionNode_cls | RowCountNode_cls
  | AggregateNode_cls | WindowOpNode_cls | ReprojectOpNode_cls | RandomSampleNode_cls
  | ExplodeNode_cls

fun class_of :: "BigFrameNode \<Rightarrow> NodeClass" where
  "class_of (JoinNode l r conds t) = JoinNode_cls"
| "class_of (ConcatNode children) = ConcatNode_cls"
| "class_of (FromRangeNode s e step) = FromRangeNode_cls"
| "class_of (ReadLocalNode fb ds n sl sess) = ReadLocalNode_cls"
| "class_of (ReadTableNode src sl sess) = ReadTableNode_cls"
| "class_of (CachedTableNode src sl sess orig) = CachedTableNode_cls"
| "class_of (PromoteOffsetsNode c col) = PromoteOffsetsNode_cls"
| "class_of (FilterNode c p) = FilterNode_cls"
| "class_of (OrderByNode c by) = OrderByNode_cls"
| "class_of (ReversedNode c b) = ReversedNode_cls"
| "class_of (SelectionNode c pairs) = SelectionNode_cls"
| "class_of (ProjectionNode c assignments) = ProjectionNode_cls"
| "class_of (RowCountNode c) = RowCountNode_cls"
| "class_of (AggregateNode c aggregations by_column_ids dropna) = AggregateNode_cls"
| "class_of (WindowOpNode c column_name op spec output_name nsn sru) = WindowOpNode_cls"
| "class_of (ReprojectOpNode c) = ReprojectOpNode_cls"
| "class_of (RandomSampleNode c fraction) = RandomSampleNode_cls"
| "class_of (ExplodeNode c column_ids) = ExplodeNode_cls"

text \<open>
  \<^verbatim>\<open>isinstance(other, cls)\<close> for a concrete class \<open>cls\<close>: the only concrete class with a
  concrete subclass is \<^verbatim>\<open>ReadTableNode\<close>, which \<^verbatim>\<open>CachedTableNode\<close> extends.
\<close>

definition isinstance :: "BigFrameNode \<Rightarrow> NodeClass \<Rightarrow> bool" where
  "isinstance other cls =
     (class_of other = cls \<or> (cls = ReadTableNode_cls \<and> class_of other = CachedTableNode_cls))"

text \<open>
  \<^verbatim>\<open>_cached_hash\<close> is \<^verbatim>\<open>hash(self._as_tuple())\<close>; Python's tuple hash is the parameter
  \<open>H\<close>. \<^verbatim>\<open>__eq__\<close> returns False for an object of another class, False when the hashes
  differ, and otherwise compares the tuples. The tuples are values here, so two elements
  compare equal when they are the same value; the test \<^verbatim>\<open>self is other\<close> concerns object
  identity, and identical objects have the same class, hash and tuple.
\<close>

definition node_hash :: "(Attr list \<Rightarrow> int) \<Rightarrow> BigFrameNode \<Rightarrow> int" where
  "node_hash H n = H (as_tuple n)"

definition node_eq :: "(Attr list \<Rightarrow> int) \<Rightarrow> BigFrameNode \<Rightarrow> BigFrameNode \<Rightarrow> bool" where
  "node_eq H self other =
     (if \<not> isinstance other (class_of self) then False
      else if node_hash H self \<noteq> node_hash H other then False
      else as_tuple self = as_tuple other)"

text \<open>Whether the column id \<open>k\<close> is among \<^verbatim>\<open>n.ids\<close> (false when \<^verbatim>\<open>n.fields\<close> raises).\<close>

definition has_column :: "externals \<Rightarrow> BigFrameNode \<Rightarrow> ColumnId \<Rightarrow> bool" where
  "has_column X n k = (case ids X n of Inl e \<Rightarrow> False | Inr cols \<Rightarrow> k \<in> set cols)"

text \<open>Whether no node of the tree (the node and its \<^verbatim>\<open>child_nodes\<close>, recursively) is a
  \<^verbatim>\<open>WindowOpNode\<close>.\<close>

fun window_free :: "BigFrameNode \<Rightarrow> bool" where
  "window_free (JoinNode l r conds t) = (window_free l \<and> window_free r)"
| "window_free (ConcatNode children) = list_all window_free children"
| "window_free (FromRangeNode s e step) = (window_free s \<and> window_free e)"
| "window_free (ReadLocalNode fb ds n sl sess) = True"
| "window_free (ReadTableNode src sl sess) = True"
| "window_free (CachedTableNode src sl sess orig) = True"
| "window_free (PromoteOffsetsNode c col) = window_free c"
| "window_free (FilterNode c p) = window_free c"
| "window_free (OrderByNode c obs) = window_free c"
| "window_free (ReversedNode c b) = window_free c"
| "window_free (SelectionNode c pairs) = window_free c"
| "window_free (ProjectionNode c assignments) = window_free c"
| "window_free (RowCountNode c) = window_free c"
| "window_free (AggregateNode c aggregations by_column_ids dropna) = window_free c"
| "window_free (WindowOpNode c column_name op spec output_name nsn sru) = False"
| "window_free (ReprojectOpNode c) = window_free c"
| "window_free (RandomSampleNode c fraction) = window_free c"
| "window_free (ExplodeNode c column_ids) = window_free c"

section \<open>The join compiler and the default ordering\<close>

subsection \<open>Types and columns of ibis expressions\<close>

text \<open>\<^verbatim>\<open>value.type()\<close>.\<close>

fun ibis_type :: "IbisValue \<Rightarrow> IbisDtype" where
  "ibis_type (TableColumn t n d) = d"
| "ibis_type (Literal s) = String"
| "ibis_type (Cast v d) = d"
| "ibis_type (FillNull v d) = ibis_type v"
| "ibis_type (GeoAsText v) = String"
| "ibis_type (ToJsonString v) = String"
| "ibis_type (StringReplace v p r) = String"
| "ibis_type (StringConcat vs) = String"
| "ibis_type (Hash v) = Int64"
| "ibis_type RandomScalar = Float64"
| "ibis_type (Alias v n) = ibis_type v"
| "ibis_type (Equals a b) = Boolean"

text \<open>
  \<^verbatim>\<open>table.schema()\<close>: the columns of a table with their types, and \<^verbatim>\<open>table.columns\<close>, their
  names. The columns of a join are those of the left table followed by those of the
  right table (the join compiler gives the two sides names that do not collide).
\<close>

fun tbl_schema :: "IbisTable \<Rightarrow> (string \<times> IbisDtype) list" where
  "tbl_schema (UnboundTable name sch) = sch"
| "tbl_schema (Project t sels) = map (\<lambda>s. (fst s, ibis_type (snd s))) sels"
| "tbl_schema (JoinChain l r preds how) = tbl_schema l @ tbl_schema r"

definition tbl_columns :: "IbisTable \<Rightarrow> string list" where
  "tbl_columns t = map fst (tbl_schema t)"

text \<open>\<^verbatim>\<open>table[name]\<close>; ibis raises for a name that is not a column of the table.\<close>

definition table_getitem :: "IbisTable \<Rightarrow> string \<Rightarrow> error + IbisValue" where
  "table_getitem t name =
     (case map_of (tbl_schema t) name of
        None \<Rightarrow> Inl IbisTypeError
      | Some d \<Rightarrow> Inr (TableColumn t name d))"

text \<open>
  Subscripting a Python list with an integer: positions \<open>0\<close> to \<open>len - 1\<close> read from the
  front, positions \<open>-1\<close> down to \<open>-len\<close> read from the back, anything else raises
  \<^verbatim>\<open>IndexError\<close>.
\<close>

definition py_index :: "'a list \<Rightarrow> int \<Rightarrow> error + 'a" where
  "py_index xs i =
     (if 0 \<le> i \<and> i < int (length xs) then Inr (xs ! nat i)
      else if i < 0 \<and> - int (length xs) \<le> i then Inr (xs ! nat (int (length xs) + i))
      else Inl IndexError)"

text \<open>The integers that subscript a list without raising.\<close>

definition in_range :: "'a list \<Rightarrow> int \<Rightarrow> bool" where
  "in_range xs i = (- int (length xs) \<le> i \<and> i < int (length xs))"

text \<open>
  A dictionary built from a sequence of pairs keeps, for a key that occurs twice, the
  later value. \<^verbatim>\<open>{**a, **b}\<close> is \<open>a ++ b\<close>. A subscript raises \<^verbatim>\<open>KeyError\<close> for a missing key.
\<close>

definition dict_of :: "('k \<times> 'v) list \<Rightarrow> ('k \<rightharpoonup> 'v)" where
  "dict_of kvs = map_of (rev kvs)"

definition dict_getitem :: "('k \<rightharpoonup> 'v) \<Rightarrow> 'k \<Rightarrow> error + 'v" where
  "dict_getitem m k = of_option KeyError (m k)"

subsection \<open>Reading compiled expressions\<close>

definition column_ids :: "'a UnorderedIR_scheme \<Rightarrow> string list" where
  "column_ids ir = map fst (ir_columns ir)"

definition hidden_column_ids :: "'a OrderedIR_scheme \<Rightarrow> string list" where
  "hidden_column_ids ir = map fst (hidden_ordering_columns ir)"

definition rename :: "(string \<rightharpoonup> string) \<Rightarrow> string \<Rightarrow> string" where
  "rename overrides n = (case overrides n of None \<Rightarrow> n | Some n' \<Rightarrow> n')"

text \<open>
  Modelled from the spec: \<^verbatim>\<open>_to_ibis_expr\<close> of \<^verbatim>\<open>compiled.UnorderedIR\<close> and
  \<^verbatim>\<open>compiled.OrderedIR\<close> is missing from the sources. The spec has each side's visible
  columns and, in the ordered path, its hidden ordering columns remapped into the fresh
  names: the table of the columns in their order (the visible ones first), each under
  the name that \<^verbatim>\<open>col_id_overrides\<close> gives it.
\<close>

definition to_ibis_expr :: "'a UnorderedIR_scheme \<Rightarrow> (string \<rightharpoonup> string) \<Rightarrow> IbisTable" where
  "to_ibis_expr ir col_id_overrides =
     Project (ir_table ir) (map (\<lambda>c. (rename col_id_overrides (fst c), snd c)) (ir_columns ir))"

definition to_ibis_expr_hidden :: "'a OrderedIR_scheme \<Rightarrow> (string \<rightharpoonup> string) \<Rightarrow> IbisTable" where
  "to_ibis_expr_hidden ir col_id_overrides =
     Project (ir_table ir)
       (map (\<lambda>c. (rename col_id_overrides (fst c), snd c))
          (ir_columns ir @ hidden_ordering_columns ir))"

text \<open>
  Modelled from the spec: \<^verbatim>\<open>orderings.join_orderings\<close> is missing from the sources. The
  spec derives the merged ordering from both sides' orderings, the left side taking
  precedence unless the right side dominates: the ordering expressions of the dominating
  side, renamed by its mapping, come first, those of the other side after them.
\<close>

definition remap_names :: "(string \<rightharpoonup> string) \<Rightarrow> OrderingExpression \<Rightarrow> OrderingExpression" where
  "remap_names m oe =
     OrderingExpression (map (rename m) (referenced_columns oe)) (ascending oe) (na_last oe)"

definition join_orderings ::
  "OrderingExpression list \<Rightarrow> OrderingExpression list \<Rightarrow> (string \<rightharpoonup> string)
     \<Rightarrow> (string \<rightharpoonup> string) \<Rightarrow> bool \<Rightarrow> OrderingExpression list" where
  "join_orderings left right left_id_mapping right_id_mapping left_order_dominates =
     (let left_refs = map (remap_names left_id_mapping) left;
          right_refs = map (remap_names right_id_mapping) right
      in if left_order_dominates then left_refs @ right_refs else right_refs @ left_refs)"

subsection \<open>\<^verbatim>\<open>single_column.py\<close>\<close>

definition NULL_SENTINEL :: string where
  "NULL_SENTINEL = ''$NULL_SENTINEL$''"

definition value_to_join_key :: "IbisValue \<Rightarrow> IbisValue" where
  "value_to_join_key value =
     (let value' = (if \<not> is_string (ibis_type value) then Cast value String else value)
      in FillNull value' (Literal NULL_SENTINEL))"

text \<open>One element of \<^verbatim>\<open>join_conditions\<close>, for the pair \<^verbatim>\<open>(left_index, right_index)\<close>.\<close>

definition join_condition :: "IbisTable \<Rightarrow> IbisTable \<Rightarrow> int \<times> int \<Rightarrow> error + IbisValue" where
  "join_condition left_table right_table cond =
     (case py_index (tbl_columns left_table) (fst cond) of Inl e \<Rightarrow> Inl e
      | Inr lname \<Rightarrow>
     (case table_getitem left_table lname of Inl e \<Rightarrow> Inl e
      | Inr lcol \<Rightarrow>
     (case py_index (tbl_columns right_table) (snd cond) of Inl e \<Rightarrow> Inl e
      | Inr rname \<Rightarrow>
     (case table_getitem right_table rname of Inl e \<Rightarrow> Inl e
      | Inr rcol \<Rightarrow> Inr (Equals (value_to_join_key lcol) (value_to_join_key rcol))))))"

text \<open>\<^verbatim>\<open>[combined_table[mapping[col.get_name()]] for col in columns]\<close>, with the new name kept
  beside the column.\<close>

definition joined_columns ::
  "IbisTable \<Rightarrow> (string \<rightharpoonup> string) \<Rightarrow> (string \<times> IbisValue) list
     \<Rightarrow> error + (string \<times> IbisValue) list" where
  "joined_columns combined_table mapping cols =
     map_err (\<lambda>col.
        case dict_getitem mapping (fst col) of Inl e \<Rightarrow> Inl e
        | Inr new_name \<Rightarrow>
            (case table_getitem combined_table new_name of Inl e \<Rightarrow> Inl e
             | Inr v \<Rightarrow> Inr (new_name, v))) cols"

text \<open>
  \<^verbatim>\<open>ids.standard_identifiers()\<close> is a generator outside the sources; the parameter
  \<open>standard_identifiers\<close> gives the identifier it yields at each position.
  \<^verbatim>\<open>dict(zip(ir.column_ids, id_generator))\<close> draws one identifier per column, from the
  position the generator has reached: the first \<^verbatim>\<open>zip\<close> draws one per left column, the
  second continues from there. \<^verbatim>\<open>guids.generate_guid\<close> is outside the sources as well;
  \<open>generate_guid p k\<close> is what the call with the prefix \<open>p\<close> returns when \<open>k\<close> guids have
  been drawn before. \<^verbatim>\<open>{id: guids.generate_guid("hidden_") for id in ir._hidden_column_ids}\<close>
  draws one guid per hidden column.
\<close>

definition value_mapping :: "(nat \<Rightarrow> string) \<Rightarrow> nat \<Rightarrow> 'a UnorderedIR_scheme \<Rightarrow> (string \<rightharpoonup> string)" where
  "value_mapping standard_identifiers yielded ir =
     dict_of (zip (column_ids ir)
       (map standard_identifiers [yielded..<yielded + length (column_ids ir)]))"

definition hidden_mapping ::
  "(string \<Rightarrow> nat \<Rightarrow> string) \<Rightarrow> nat \<Rightarrow> 'a OrderedIR_scheme \<Rightarrow> (string \<rightharpoonup> string)" where
  "hidden_mapping generate_guid drawn ir =
     dict_of (zip (hidden_column_ids ir)
       (map (generate_guid ''hidden_'') [drawn..<drawn + length (hidden_column_ids ir)]))"

definition join_by_column_unordered ::
  "(nat \<Rightarrow> string) \<Rightarrow> UnorderedIR \<Rightarrow> UnorderedIR \<Rightarrow> (int \<times> int) list \<Rightarrow> JoinType
     \<Rightarrow> error + UnorderedIR" where
  "join_by_column_unordered standard_identifiers left right conditions how =
     (let l_mapping = value_mapping standard_identifiers 0 left;
          r_mapping = value_mapping standard_identifiers (length (column_ids left)) right;
          left_table = to_ibis_expr left l_mapping;
          right_table = to_ibis_expr right r_mapping
      in case map_err (join_condition left_table right_table) conditions of Inl e \<Rightarrow> Inl e
         | Inr join_conditions \<Rightarrow>
        (let combined_table = JoinChain left_table right_table join_conditions how
         in case joined_columns combined_table l_mapping (ir_columns left) of Inl e \<Rightarrow> Inl e
            | Inr lcols \<Rightarrow>
           (case joined_columns combined_table r_mapping (ir_columns right) of Inl e \<Rightarrow> Inl e
            | Inr rcols \<Rightarrow>
                Inr \<lparr>ir_table = combined_table, ir_columns = lcols @ rcols\<rparr>)))"

definition join_by_column_ordered ::
  "(nat \<Rightarrow> string) \<Rightarrow> (string \<Rightarrow> nat \<Rightarrow> string) \<Rightarrow> nat \<Rightarrow> OrderedIR \<Rightarrow> OrderedIR
     \<Rightarrow> (int \<times> int) list \<Rightarrow> JoinType \<Rightarrow> error + OrderedIR" where
  "join_by_column_ordered standard_identifiers generate_guid drawn left right conditions how =
     (let l_value_mapping = value_mapping standard_identifiers 0 left;
          r_value_mapping = value_mapping standard_identifiers (length (column_ids left)) right;
          l_hidden_mapping = hidden_mapping generate_guid drawn left;
          r_hidden_mapping =
            hidden_mapping generate_guid (drawn + length (hidden_column_ids left)) right;
          l_mapping = l_value_mapping ++ l_hidden_mapping;
          r_mapping = r_value_mapping ++ r_hidden_mapping;
          left_table = to_ibis_expr_hidden left l_mapping;
          right_table = to_ibis_expr_hidden right r_mapping
      in case map_err (join_condition left_table right_table) conditions of Inl e \<Rightarrow> Inl e
         | Inr join_conditions \<Rightarrow>
        (let combined_table = JoinChain left_table right_table join_conditions how;
             ordering = join_orderings (ir_ordering left) (ir_ordering right) l_mapping r_mapping
                          (how \<noteq> Right)
         in case joined_columns combined_table l_mapping (ir_columns left) of Inl e \<Rightarrow> Inl e
            | Inr lcols \<Rightarrow>
           (case joined_columns combined_table r_mapping (ir_columns right) of Inl e \<Rightarrow> Inl e
            | Inr rcols \<Rightarrow>
           (case joined_columns combined_table l_hidden_mapping (hidden_ordering_columns left) of
              Inl e \<Rightarrow> Inl e
            | Inr lhidden \<Rightarrow>
           (case joined_columns combined_table r_hidden_mapping (hidden_ordering_columns right) of
              Inl e \<Rightarrow> Inl e
            | Inr rhidden \<Rightarrow>
                Inr \<lparr>ir_table = combined_table, ir_columns = lcols @ rcols,
                     hidden_ordering_columns = lhidden @ rhidden,
                     ir_ordering = ordering\<rparr>)))))"

subsection \<open>\<^verbatim>\<open>default_ordering.py\<close>\<close>

text \<open>The Python literal \<^verbatim>\<open>"\\"\<close> is the one-character string of a backslash.\<close>

definition backslash :: string where
  "backslash = [CHR 0x5C]"

text \<open>The value \<^verbatim>\<open>result\<close> of \<^verbatim>\<open>_convert_to_nonnull_string\<close>: the text form of the column,
  still null where the column is.\<close>

definition text_result :: "IbisValue \<Rightarrow> IbisValue" where
  "text_result column =
     (let col_type = ibis_type column
      in if is_numeric col_type \<or> is_boolean col_type \<or> is_binary col_type
            \<or> is_temporal col_type
         then Cast column String
         else if is_geospatial col_type then GeoAsText column
         else if is_string col_type then column
         else ToJsonString column)"

definition convert_to_nonnull_string :: "IbisValue \<Rightarrow> IbisValue" where
  "convert_to_nonnull_string column =
     (let result = text_result column;
          escaped = StringReplace (FillNull result (Literal [])) backslash (backslash @ backslash)
      in StringConcat [Literal backslash, escaped])"

text \<open>\<^verbatim>\<open>str_values\<close> and \<^verbatim>\<open>full_row_str\<close> of \<^verbatim>\<open>gen_default_ordering\<close>.\<close>

definition str_values :: "IbisTable \<Rightarrow> error + IbisValue list" where
  "str_values tbl =
     map_err (\<lambda>col. case table_getitem tbl col of Inl e \<Rightarrow> Inl e
                     | Inr column \<Rightarrow> Inr (convert_to_nonnull_string column))
       (tbl_columns tbl)"

definition full_row_str :: "IbisTable \<Rightarrow> error + IbisValue" where
  "full_row_str tbl =
     (case str_values tbl of Inl e \<Rightarrow> Inl e
      | Inr svs \<Rightarrow>
          if length svs > 1 then Inr (StringConcat svs)
          else (case svs of [] \<Rightarrow> Inl IndexError | sv # _ \<Rightarrow> Inr sv))"

definition gen_default_ordering ::
  "(string \<Rightarrow> nat \<Rightarrow> string) \<Rightarrow> nat \<Rightarrow> IbisTable \<Rightarrow> bool \<Rightarrow> error + IbisValue list" where
  "gen_default_ordering generate_guid drawn tbl use_double_hash =
     (let ordering_hash_part = generate_guid ''bigframes_ordering_'' drawn;
          ordering_hash_part2 = generate_guid ''bigframes_ordering_'' (drawn + 1);
          ordering_rand_part = generate_guid ''bigframes_ordering_'' (drawn + 2)
      in case full_row_str tbl of Inl e \<Rightarrow> Inl e
         | Inr row_str \<Rightarrow>
        (let full_row_hash = Alias (Hash row_str) ordering_hash_part;
             full_row_hash_p2 =
               Alias (Hash (StringConcat [row_str, Literal ''_''])) ordering_hash_part2;
             random_value = Alias RandomScalar ordering_rand_part
         in Inr (if use_double_hash then [full_row_hash, full_row_hash_p2, random_value]
                 else [full_row_hash, random_value])))"

subsection \<open>What the engine computes\<close>

text \<open>
  The expressions are evaluated by the warehouse engine, row by row. The operations
  above have their SQL meaning: a cast and the text form of a geography are null on a
  null; \<^verbatim>\<open>fillna\<close> replaces a null by the given value; \<^verbatim>\<open>replace\<close> rewrites every occurrence
  of a non-empty pattern, left to right; a concatenation is null when an argument is;
  an equality with a null operand is null, neither true nor false. What a cast, a text
  form, a JSON string, the hash and the random draw yield on a given value is the engine's
  business and a parameter here.
\<close>

function replace_all :: "string \<Rightarrow> string \<Rightarrow> string \<Rightarrow> string" where
  "replace_all pat rep s =
     (if pat = [] \<or> s = [] then s
      else if take (length pat) s = pat then rep @ replace_all pat rep (drop (length pat) s)
      else hd s # replace_all pat rep (tl s))"
  by pat_completeness auto
termination
  by (relation "measure (\<lambda>(pat, rep, s). length s)") auto

declare replace_all.simps [simp del]

definition is_text :: "SqlValue \<Rightarrow> bool" where
  "is_text v = (case v of SString s \<Rightarrow> True | _ \<Rightarrow> False)"

definition text_of :: "SqlValue \<Rightarrow> string" where
  "text_of v = (case v of SString s \<Rightarrow> s | _ \<Rightarrow> [])"

definition sql_concat :: "SqlValue list \<Rightarrow> SqlValue" where
  "sql_concat vs = (if list_all is_text vs then SString (concat (map text_of vs)) else SNull)"

definition sql_equals :: "SqlValue \<Rightarrow> SqlValue \<Rightarrow> SqlValue" where
  "sql_equals a b = (if a = SNull \<or> b = SNull then SNull else SBool (a = b))"

fun eval :: "engine \<Rightarrow> (IbisTable \<Rightarrow> string \<Rightarrow> SqlValue) \<Rightarrow> IbisValue \<Rightarrow> SqlValue" where
  "eval E row (TableColumn t n d) = row t n"
| "eval E row (Literal s) = SString s"
| "eval E row (Cast v d) = (case eval E row v of SNull \<Rightarrow> SNull | x \<Rightarrow> cast_value E d x)"
| "eval E row (FillNull v d) = (case eval E row v of SNull \<Rightarrow> eval E row d | x \<Rightarrow> x)"
| "eval E row (GeoAsText v) = (case eval E row v of SNull \<Rightarrow> SNull | x \<Rightarrow> st_astext E x)"
| "eval E row (ToJsonString v) = to_json_string E (eval E row v)"
| "eval E row (StringReplace v p r) =
     (case eval E row v of SString s \<Rightarrow> SString (replace_all p r s) | x \<Rightarrow> x)"
| "eval E row (StringConcat vs) = sql_concat (map (eval E row) vs)"
| "eval E row (Hash v) =
     (case eval E row v of SString s \<Rightarrow> SInt (string_hash E s) | x \<Rightarrow> SNull)"
| "eval E row RandomScalar = random_draw E"
| "eval E row (Alias v n) = eval E row v"
| "eval E row (Equals a b) = sql_equals (eval E row a) (eval E row b)"

text \<open>
  The row fingerprint in the words of the specification. The text form of a value goes by
  the type of its column: numeric, boolean, binary and temporal types are cast to text,
  geospatial types use the well-known text representation, strings pass through, every
  other type is serialized as JSON. A null value becomes the empty text. Backslashes are
  escaped, every column's text gets a backslash in front, and the texts are concatenated
  in schema order.
\<close>

definition text_or_null :: "SqlValue \<Rightarrow> bool" where
  "text_or_null v = (is_text v \<or> v = SNull)"

definition escape_backslashes :: "string \<Rightarrow> string" where
  "escape_backslashes s = concat (map (\<lambda>c. if [c] = backslash then backslash @ backslash else [c]) s)"

definition uses_json_fallback :: "IbisDtype \<Rightarrow> bool" where
  "uses_json_fallback d =
     (\<not> (is_numeric d \<or> is_boolean d \<or> is_binary d \<or> is_temporal d \<or> is_geospatial d
          \<or> is_string d))"

definition spec_text_form :: "engine \<Rightarrow> IbisDtype \<Rightarrow> SqlValue \<Rightarrow> SqlValue" where
  "spec_text_form E d v =
     (if is_numeric d \<or> is_boolean d \<or> is_binary d \<or> is_temporal d then cast_value E String v
      else if is_geospatial d then st_astext E v
      else if is_string d then v
      else to_json_string E v)"

definition spec_fingerprint ::
  "engine \<Rightarrow> (IbisTable \<Rightarrow> string \<Rightarrow> SqlValue) \<Rightarrow> IbisTable \<Rightarrow> string" where
  "spec_fingerprint E row tbl =
     concat (map (\<lambda>c. backslash @
                    escape_backslashes
                      (if row tbl (fst c) = SNull then []
                       else text_of (spec_text_form E (snd c) (row tbl (fst c)))))
               (tbl_schema tbl))"

text \<open>
  The fingerprint as amended: a null value becomes the empty text in the columns that are
  cast, rendered as geography text or passed through; in a column of the JSON fallback
  the value is serialized whether it is null or not, and the serialization is the
  column's text (the empty text when the serialization itself is null).
\<close>

definition amended_fingerprint ::
  "engine \<Rightarrow> (IbisTable \<Rightarrow> string \<Rightarrow> SqlValue) \<Rightarrow> IbisTable \<Rightarrow> string" where
  "amended_fingerprint E row tbl =
     concat (map (\<lambda>c. backslash @
                    escape_backslashes
                      (if row tbl (fst c) = SNull \<and> \<not> uses_json_fallback (snd c) then []
                       else text_of (spec_text_form E (snd c) (row tbl (fst c)))))
               (tbl_schema tbl))"

text \<open>
  What is asked of the engine and of the row: the text form of every value that is
  rendered (a value that is not null, or any value of a JSON fallback column) is a text or
  null. And the case in which the two fingerprints agree: no JSON fallback column holds a
  null, or the engine's JSON text of null is null or empty.
\<close>

definition text_forms_are_texts ::
  "engine \<Rightarrow> (IbisTable \<Rightarrow> string \<Rightarrow> SqlValue) \<Rightarrow> IbisTable \<Rightarrow> bool" where
  "text_forms_are_texts E row tbl =
     list_all (\<lambda>c. (row tbl (fst c) = SNull \<and> \<not> uses_json_fallback (snd c)) \<or>
                    text_or_null (spec_text_form E (snd c) (row tbl (fst c))))
       (tbl_schema tbl)"

definition json_nulls_are_empty ::
  "engine \<Rightarrow> (IbisTable \<Rightarrow> string \<Rightarrow> SqlValue) \<Rightarrow> IbisTable \<Rightarrow> bool" where
  "json_nulls_are_empty E row tbl =
     list_all (\<lambda>c. \<not> (row tbl (fst c) = SNull \<and> uses_json_fallback (snd c)) \<or>
                    text_of (to_json_string E SNull) = [])
       (tbl_schema tbl)"

section \<open>Concrete inputs\<close>

text \<open>
  A local table with the columns \<open>a\<close> and \<open>b\<close>, the same table scanned for \<open>a\<close> alone,
  and a window operation over the first that reads \<open>a\<close> and writes \<open>w\<close>.
\<close>

definition scan_item :: "ColumnId \<Rightarrow> Dtype \<Rightarrow> ScanItem" where
  "scan_item i d = \<lparr>item_id = i, item_dtype = d, source_id = i\<rparr>"

definition leaf_ab :: BigFrameNode where
  "leaf_ab = ReadLocalNode [] [(''a'', INT_DTYPE), (''b'', INT_DTYPE)] 2
     (ScanList [scan_item ''a'' INT_DTYPE, scan_item ''b'' INT_DTYPE]) None"

definition leaf_a :: BigFrameNode where
  "leaf_a = ReadLocalNode [] [(''a'', INT_DTYPE), (''b'', INT_DTYPE)] 2
     (ScanList [scan_item ''a'' INT_DTYPE]) None"

definition window_ab :: BigFrameNode where
  "window_ab = WindowOpNode leaf_ab (DerefOp ''a'') (UnaryWindowOp ''sum'')
     (WindowSpec ''unbound'') ''w'' False False"

text \<open>The window operation types every input as itself; the other typing functions are total.\<close>

definition simple_typing :: externals where
  "simple_typing =
     \<lparr>expr_output_type = (\<lambda>e types. Some INT_DTYPE),
      agg_output_type = (\<lambda>a types. Some INT_DTYPE),
      op_output_type = (\<lambda>op d. Some d),
      dtype_for_etype = (\<lambda>d. d),
      array_value_type = (\<lambda>d. Some d)\<rparr>"

definition leaf_b :: BigFrameNode where
  "leaf_b = ReadLocalNode [] [(''a'', INT_DTYPE), (''b'', INT_DTYPE)] 2
     (ScanList [scan_item ''b'' INT_DTYPE]) None"

definition leaf_s :: BigFrameNode where
  "leaf_s = ReadLocalNode [] [(''s'', STRING_DTYPE)] 2
     (ScanList [scan_item ''s'' STRING_DTYPE]) None"

text \<open>A physical table of 7 rows with the columns \<open>x\<close> and \<open>y\<close>, and two cached nodes over it
  that differ in the original subtree only.\<close>

definition gbq_table :: GbqTable where
  "gbq_table =
     \<lparr>project_id = ''p'', dataset_id = ''d'', table_id = ''t'',
      physical_schema = [\<lparr>field_name = ''x'', field_type = ''INTEGER''\<rparr>,
                         \<lparr>field_name = ''y'', field_type = ''INTEGER''\<rparr>],
      n_rows = 7, is_physical_table = True, cluster_cols = None\<rparr>"

definition gbq_source :: BigqueryDataSource where
  "gbq_source = \<lparr>table = gbq_table, at_time = None, sql_predicate = None, ordering = None\<rparr>"

definition cached_1 :: BigFrameNode where
  "cached_1 = CachedTableNode gbq_source (ScanList [scan_item ''x'' INT_DTYPE]) 1 leaf_a"

definition cached_2 :: BigFrameNode where
  "cached_2 = CachedTableNode gbq_source (ScanList [scan_item ''x'' INT_DTYPE]) 1 leaf_b"

text \<open>The left join of a table with the column \<open>x\<close> and a table with the column \<open>y\<close>, on
  \<open>x = y\<close>.\<close>

definition leaf_x :: BigFrameNode where
  "leaf_x = ReadLocalNode [] [(''x'', INT_DTYPE)] 3 (ScanList [scan_item ''x'' INT_DTYPE]) None"

definition leaf_y :: BigFrameNode where
  "leaf_y = ReadLocalNode [] [(''y'', INT_DTYPE)] 3 (ScanList [scan_item ''y'' INT_DTYPE]) None"

definition join_xy :: BigFrameNode where
  "join_xy = JoinNode leaf_x leaf_y [(DerefOp ''x'', DerefOp ''y'')] Left"

text \<open>Two tables to join, a row in which every column is null, and an engine.\<close>

definition null_row :: "IbisTable \<Rightarrow> string \<Rightarrow> SqlValue" where
  "null_row t n = SNull"

definition plain_engine :: engine where
  "plain_engine =
     \<lparr>cast_value = (\<lambda>d v. case v of SInt i \<Rightarrow> SString (str_nat (nat i)) | x \<Rightarrow> x),
      st_astext = (\<lambda>v. v),
      to_json_string = (\<lambda>v. case v of SNull \<Rightarrow> SString ''null'' | x \<Rightarrow> x),
      string_hash = (\<lambda>s. int (length s)),
      random_draw = SInt 4\<rparr>"

definition table_l :: IbisTable where
  "table_l = UnboundTable ''l'' [(''k'', Int64), (''v'', String)]"

definition table_r :: IbisTable where
  "table_r = UnboundTable ''r'' [(''k2'', String)]"

text \<open>Guids numbered as they are drawn, a table without columns, and a row whose column
  \<open>v\<close> holds the text \<open>a\<close> and whose other columns are null.\<close>

definition numbered_guid :: "string \<Rightarrow> nat \<Rightarrow> string" where
  "numbered_guid prefix k = prefix @ str_nat k"

definition table_j :: IbisTable where
  "table_j = UnboundTable ''j'' [(''doc'', JSON)]"

definition b_plus_1 :: Expression where
  "b_plus_1 = Expression ''b + 1'' [''b'']"

definition projection_a :: BigFrameNode where
  "projection_a = ProjectionNode leaf_ab [(b_plus_1, ''a'')]"

definition join_projection_y :: BigFrameNode where
  "join_projection_y = JoinNode projection_a leaf_y [(DerefOp ''a'', DerefOp ''y'')] Inner"

definition empty_table :: IbisTable where
  "empty_table = UnboundTable ''t'' []"

definition row_a :: "IbisTable \<Rightarrow> string \<Rightarrow> SqlValue" where
  "row_a t n = (if n = ''v'' then SString ''a'' else SNull)"

text \<open>Identifiers \<open>col_0\<close>, \<open>col_1\<close>, ... and two compiled expressions over the two tables,
  unordered and ordered by one hidden column each.\<close>

definition col_identifier :: "nat \<Rightarrow> string" where
  "col_identifier i = ''col_'' @ str_nat i"

definition unordered_l :: UnorderedIR where
  "unordered_l =
     \<lparr>ir_table = table_l,
      ir_columns = [(''k'', TableColumn table_l ''k'' Int64),
                    (''v'', TableColumn table_l ''v'' String)]\<rparr>"

definition unordered_r :: UnorderedIR where
  "unordered_r =
     \<lparr>ir_table = table_r, ir_columns = [(''k2'', TableColumn table_r ''k2'' String)]\<rparr>"

definition ordered_l :: OrderedIR where
  "ordered_l =
     \<lparr>ir_table = table_l,
      ir_columns = [(''k'', TableColumn table_l ''k'' Int64),
                    (''v'', TableColumn table_l ''v'' String)],
      hidden_ordering_columns = [(''lo'', TableColumn table_l ''k'' Int64)],
      ir_ordering = [OrderingExpression [''lo''] True True]\<rparr>"

definition ordered_r :: OrderedIR where
  "ordered_r =
     \<lparr>ir_table = table_r,
      ir_columns = [(''k2'', TableColumn table_r ''k2'' String)],
      hidden_ordering_columns = [(''ro'', TableColumn table_r ''k2'' String)],
      ir_ordering = [OrderingExpression [''ro''] True True]\<rparr>"

section \<open>Pruning\<close>

subsection \<open>What each override does with its own column\<close>

lemma WindowOpNode_prune_used:
  "output_name \<in> used_cols \<Longrightarrow>
   prune X (WindowOpNode c column_name op spec output_name nsn sru) used_cols =
     (case prune X c ((used_cols - {output_name}) \<union> {deref_id column_name}) of
        Inl e \<Rightarrow> Inl e
      | Inr c' \<Rightarrow> Inr (WindowOpNode c' column_name op spec output_name nsn sru))"
  by simp

lemma WindowOpNode_prune_unused:
  "output_name \<notin> used_cols \<Longrightarrow>
   prune X (WindowOpNode c column_name op spec output_name nsn sru) used_cols = Inr c"
  by simp

lemma PromoteOffsetsNode_prune_unused:
  "col_id \<notin> used_cols \<Longrightarrow>
   prune X (PromoteOffsetsNode c col_id) used_cols = prune X c used_cols"
  by simp

lemma prune_leaf_ab: "prune X leaf_ab {''a''} = Inr leaf_a"
  by (simp add: leaf_ab_def leaf_a_def prune_scan_list_def scan_item_def)

lemma leaf_a_neq_leaf_ab: "leaf_a \<noteq> leaf_ab"
  by (simp add: leaf_ab_def leaf_a_def)

text \<open>
  C3, first half: a \<^verbatim>\<open>WindowOpNode\<close> whose output column is not used should prune to its
  pruned child. On \<open>window_ab\<close> with only \<open>a\<close> used, \<^verbatim>\<open>WindowOpNode.prune\<close> returns the
  child \<open>leaf_ab\<close> as it stands, still scanning \<open>b\<close>, while the child pruned against the
  same set is \<open>leaf_a\<close>. (\<^verbatim>\<open>PromoteOffsetsNode.prune\<close> and \<^verbatim>\<open>ProjectionNode.prune\<close> return
  \<^verbatim>\<open>self.child.prune(used_cols)\<close> in the same situation.)
\<close>

theorem WindowOpNode_prune_unused_keeps_child_unpruned:
  "prune X window_ab {''a''} = Inr leaf_ab \<and>
   prune X leaf_ab {''a''} = Inr leaf_a \<and>
   prune X window_ab {''a''} \<noteq> prune X leaf_ab {''a''}"
proof -
  have w: "prune X window_ab {''a''} = Inr leaf_ab"
    by (simp add: window_ab_def)
  show ?thesis
    using w prune_leaf_ab [of X] leaf_a_neq_leaf_ab by simp
qed

text \<open>
  C1: pruning should be idempotent. Pruning \<open>window_ab\<close> against \<open>{a}\<close> gives \<open>leaf_ab\<close>;
  pruning that result against \<open>{a}\<close> again gives \<open>leaf_a\<close>, a different tree.
\<close>

theorem prune_twice_differs_on_window_ab:
  "bind_err (prune X window_ab {''a''}) (\<lambda>t. prune X t {''a''}) = Inr leaf_a \<and>
   prune X window_ab {''a''} = Inr leaf_ab \<and>
   bind_err (prune X window_ab {''a''}) (\<lambda>t. prune X t {''a''}) \<noteq> prune X window_ab {''a''}"
proof -
  have w: "prune X window_ab {''a''} = Inr leaf_ab"
    by (simp add: window_ab_def)
  have twice: "bind_err (prune X window_ab {''a''}) (\<lambda>t. prune X t {''a''}) = Inr leaf_a"
    by (simp add: w bind_err_def prune_leaf_ab)
  show ?thesis
    using w twice leaf_a_neq_leaf_ab by simp
qed

section \<open>Construction of \<^verbatim>\<open>ConcatNode\<close>\<close>

lemma map_err_Inr_all2:
  "map_err f xs = Inr ys \<Longrightarrow> list_all2 (\<lambda>x y. f x = Inr y) xs ys"
  by (induction xs arbitrary: ys) (auto split: sum.splits)

lemma map_err_Inr_mem:
  assumes "map_err f xs = Inr ys" and "x \<in> set xs"
  shows "\<exists>y \<in> set ys. f x = Inr y"
  using assms by (induction xs arbitrary: ys) (auto split: sum.splits)

lemma map_err_const:
  "list_all (\<lambda>x. f x = Inr d) xs \<Longrightarrow> map_err f xs = Inr (replicate (length xs) d)"
  by (induction xs) auto

lemma remdups_replicate_Suc: "remdups (replicate (Suc n) d) = [d]"
  by (induction n) auto

lemma length_remdups_replicate: "0 < n \<Longrightarrow> length (remdups (replicate n d)) = 1"
  using remdups_replicate_Suc [of "n - 1" d] by (cases n) (simp_all del: replicate.simps)

lemma length_remdups_one_same:
  assumes "length (remdups ys) = 1" and "a \<in> set ys" and "b \<in> set ys"
  shows "a = b"
proof -
  have "card (set ys) = 1" using assms(1) by (simp add: length_remdups_card_conv)
  then obtain z where "set ys = {z}" by (auto simp: card_1_singleton_iff)
  with assms(2,3) show ?thesis by auto
qed

text \<open>
  C8: constructing a \<^verbatim>\<open>ConcatNode\<close> raises when there are no children, and raises when
  two of the children have different \<^verbatim>\<open>schema.dtypes\<close>; with at least one child, and all
  children of one dtype sequence \<open>ds\<close>, it returns the node.
\<close>

theorem ConcatNode_construction:
  "mk_ConcatNode X [] = Inl ValueError \<and>
   (c1 \<in> set children \<and> c2 \<in> set children \<and> schema_dtypes X c1 \<noteq> schema_dtypes X c2
      \<longrightarrow> isl (mk_ConcatNode X children)) \<and>
   (children \<noteq> [] \<and> list_all (\<lambda>c. schema_dtypes X c = Inr ds) children
      \<longrightarrow> mk_ConcatNode X children = Inr (ConcatNode children))"
proof (intro conjI impI)
  show "mk_ConcatNode X [] = Inl ValueError" by (simp add: mk_ConcatNode_def)
next
  assume h: "c1 \<in> set children \<and> c2 \<in> set children \<and> schema_dtypes X c1 \<noteq> schema_dtypes X c2"
  show "isl (mk_ConcatNode X children)"
  proof (cases "map_err (schema_dtypes X) children")
    case (Inl e)
    then show ?thesis by (simp add: mk_ConcatNode_def)
  next
    case (Inr ys)
    from h map_err_Inr_mem [OF Inr] obtain y1 y2
      where y: "y1 \<in> set ys" "schema_dtypes X c1 = Inr y1" "y2 \<in> set ys" "schema_dtypes X c2 = Inr y2"
      by blast
    with h have "y1 \<noteq> y2" by auto
    with y length_remdups_one_same [of ys y1 y2] have "length (remdups ys) \<noteq> 1" by auto
    with Inr show ?thesis by (simp add: mk_ConcatNode_def)
  qed
next
  assume h: "children \<noteq> [] \<and> list_all (\<lambda>c. schema_dtypes X c = Inr ds) children"
  then have n: "0 < length children" by simp
  from h have "map_err (schema_dtypes X) children = Inr (replicate (length children) ds)"
    by (simp add: map_err_const)
  with n show "mk_ConcatNode X children = Inr (ConcatNode children)"
    by (simp add: mk_ConcatNode_def length_remdups_replicate)
qed

lemma schema_dtypes_leaf_a: "schema_dtypes X leaf_a = Inr [INT_DTYPE]"
  by (simp add: schema_dtypes_def leaf_a_def scan_fields_def scan_item_def)
lemma schema_dtypes_leaf_b: "schema_dtypes X leaf_b = Inr [INT_DTYPE]"
  by (simp add: schema_dtypes_def leaf_b_def scan_fields_def scan_item_def)
lemma schema_dtypes_leaf_s: "schema_dtypes X leaf_s = Inr [STRING_DTYPE]"
  by (simp add: schema_dtypes_def leaf_s_def scan_fields_def scan_item_def)

theorem ConcatNode_construction_witness:
  "mk_ConcatNode simple_typing [] = Inl ValueError \<and>
   isl (mk_ConcatNode simple_typing [leaf_a, leaf_s]) \<and>
   mk_ConcatNode simple_typing [leaf_a, leaf_b] = Inr (ConcatNode [leaf_a, leaf_b])"
  using ConcatNode_construction [of simple_typing leaf_a "[leaf_a, leaf_s]" leaf_s "[INT_DTYPE]"]
        ConcatNode_construction [of simple_typing leaf_a "[leaf_a, leaf_b]" leaf_b "[INT_DTYPE]"]
  by (simp add: schema_dtypes_leaf_a schema_dtypes_leaf_b schema_dtypes_leaf_s)

lemma ConcatNode_fields_renamed:
  "fields X (ConcatNode [leaf_a, leaf_b]) = Inr [(''column_0'', INT_DTYPE)]"
  by (simp add: leaf_a_def scan_fields_def scan_item_def str_nat.simps)

section \<open>Leaf nodes\<close>

text \<open>
  C10: \<^verbatim>\<open>row_count\<close> of a \<^verbatim>\<open>ReadTableNode\<close> is the table's \<^verbatim>\<open>n_rows\<close> exactly when the
  source has no SQL predicate and the table is a physical table, and is \<^verbatim>\<open>None\<close> exactly
  otherwise; \<^verbatim>\<open>CachedTableNode\<close> inherits the property.
\<close>

theorem ReadTableNode_row_count:
  "(row_count (ReadTableNode src sl sess) = Some (Some k) \<longleftrightarrow>
      sql_predicate src = None \<and> is_physical_table (table src) \<and> k = n_rows (table src)) \<and>
   (row_count (ReadTableNode src sl sess) = Some None \<longleftrightarrow>
      \<not> (sql_predicate src = None \<and> is_physical_table (table src))) \<and>
   row_count (CachedTableNode src sl sess orig) = row_count (ReadTableNode src sl sess)"
  by auto

text \<open>
  C2, as the code has it: \<^verbatim>\<open>original_node\<close> is not a child of a \<^verbatim>\<open>CachedTableNode\<close>, but it
  is the fourth element of the tuple that \<^verbatim>\<open>__hash__\<close> hashes and \<^verbatim>\<open>__eq__\<close> compares: two
  cached nodes that agree on source, scan list and session are equal exactly when their
  original nodes are equal.
\<close>

theorem CachedTableNode_original_node:
  "child_nodes (CachedTableNode src sl sess orig) = [] \<and>
   as_tuple (CachedTableNode src sl sess orig) = [ASource src, AScanList sl, ASession sess, ANode orig] \<and>
   node_hash H (CachedTableNode src sl sess orig) = H [ASource src, AScanList sl, ASession sess, ANode orig] \<and>
   (node_eq H (CachedTableNode src sl sess orig1) (CachedTableNode src sl sess orig2) \<longleftrightarrow> orig1 = orig2)"
  by (auto simp: node_eq_def node_hash_def isinstance_def)

text \<open>
  C2 as stated fails: \<open>cached_1\<close> and \<open>cached_2\<close> agree on source, scan list and session
  and differ in \<^verbatim>\<open>original_node\<close>; they are not equal, even under a hash that gives both
  the same value.
\<close>

theorem CachedTableNode_eq_counterexample:
  "\<not> node_eq (int \<circ> length) cached_1 cached_2"
  by (simp add: node_eq_def node_hash_def isinstance_def cached_1_def cached_2_def leaf_a_def leaf_b_def scan_item_def)

section \<open>Equality of nodes\<close>

text \<open>
  Within one class the tuple determines the node, and a \<^verbatim>\<open>CachedTableNode\<close> has one element
  more than a \<^verbatim>\<open>ReadTableNode\<close>: \<^verbatim>\<open>__eq__\<close> holds of two nodes exactly when they are the same
  value, whatever the hash function.
\<close>

lemma as_tuple_inj:
  "isinstance b (class_of a) \<Longrightarrow> as_tuple a = as_tuple b \<Longrightarrow> a = b"
  by (cases a; cases b; simp add: isinstance_def)

lemma node_eq_iff: "node_eq H a b \<longleftrightarrow> a = b"
proof
  assume "node_eq H a b"
  then have "isinstance b (class_of a)" "as_tuple a = as_tuple b"
    by (auto simp: node_eq_def split: if_splits)
  then show "a = b" by (rule as_tuple_inj)
next
  assume "a = b"
  then show "node_eq H a b" by (simp add: node_eq_def isinstance_def)
qed

section \<open>Pruning keeps the used columns\<close>

text \<open>The ids of the fields that a comprehension builds are the ids it was given.\<close>

lemma map_err_fst_selection:
  "map_err (\<lambda>(inp, out). case g inp of Inl e \<Rightarrow> Inl e | Inr d \<Rightarrow> Inr (out, d)) ps = Inr fs
   \<Longrightarrow> map fst fs = map snd ps"
  by (induction ps arbitrary: fs) (auto split: sum.splits)

lemma map_err_fst_assign:
  "map_err (\<lambda>(ex, i). case g ex of None \<Rightarrow> Inl TypeError | Some d \<Rightarrow> Inr (i, h d)) ps = Inr fs
   \<Longrightarrow> map fst fs = map snd ps"
  by (induction ps arbitrary: fs) (auto split: sum.splits option.splits)

lemma map_err_fst_by:
  "map_err (\<lambda>ref. case g ref of Inl e \<Rightarrow> Inl e | Inr d \<Rightarrow> Inr (deref_id ref, d)) bs = Inr fs
   \<Longrightarrow> map fst fs = map deref_id bs"
  by (induction bs arbitrary: fs) (auto split: sum.splits)

lemma map_err_fst_explode:
  "map_err (\<lambda>f. if P f then (case g f of Inl e \<Rightarrow> Inl e
                  | Inr d \<Rightarrow> (case h d of None \<Rightarrow> Inl TypeError | Some v \<Rightarrow> Inr (fst f, v)))
            else Inr f) cf = Inr fs
   \<Longrightarrow> map fst fs = map fst cf"
  by (induction cf arbitrary: fs) (auto split: sum.splits option.splits if_splits)


text \<open>
  A column that is used and that a node has is still there after pruning, whenever the
  pruned node has fields at all.
\<close>

lemma scan_fields_prune:
  "fst ` set (scan_fields (prune_scan_list sl U)) = fst ` set (scan_fields sl) \<inter> U"
  by (force simp: scan_fields_def prune_scan_list_def)

lemma prune_keeps_used:
  "prune X T U = Inr T' \<Longrightarrow> fields X T = Inr fs \<Longrightarrow> fields X T' = Inr fs' \<Longrightarrow> k \<in> U
   \<Longrightarrow> k \<in> fst ` set fs \<Longrightarrow> k \<in> fst ` set fs'"
proof (induction T arbitrary: U T' fs fs')
  case (JoinNode l r conds t)
  let ?V = "U \<union> set (join_key_ids conds)"
  from JoinNode.prems(1) obtain l' r' where
    pl: "prune X l ?V = Inr l'" and pr: "prune X r ?V = Inr r'" and T': "T' = JoinNode l' r' conds t"
    by (auto simp: Let_def mk_JoinNode_def split: sum.splits if_splits)
  from JoinNode.prems(2) obtain lf rf where
    f: "fields X l = Inr lf" "fields X r = Inr rf" "fs = lf @ rf"
    by (auto split: sum.splits)
  from JoinNode.prems(3) T' obtain lf' rf' where
    f': "fields X l' = Inr lf'" "fields X r' = Inr rf'" "fs' = lf' @ rf'"
    by (auto split: sum.splits)
  have kV: "k \<in> ?V" using JoinNode.prems(4) by simp
  from JoinNode.prems(5) f(3) have "k \<in> fst ` set lf \<or> k \<in> fst ` set rf" by auto
  then show ?case
  proof
    assume "k \<in> fst ` set lf"
    from JoinNode.IH(1) [OF pl f(1) f'(1) kV this] f'(3) show ?thesis by auto
  next
    assume "k \<in> fst ` set rf"
    from JoinNode.IH(2) [OF pr f(2) f'(2) kV this] f'(3) show ?thesis by auto
  qed
next
  case (ConcatNode cs)
  from ConcatNode.prems show ?case by auto
next
  case (FromRangeNode s e step)
  from FromRangeNode.prems show ?case by auto
next
  case (ReadLocalNode fb ds n sl sess)
  then have "fs = scan_fields sl" "fs' = scan_fields (prune_scan_list sl U)" by auto
  with ReadLocalNode.prems(4,5) scan_fields_prune [of sl U] show ?case by simp
next
  case (ReadTableNode src sl sess)
  then have "fs = scan_fields sl" "fs' = scan_fields (prune_scan_list sl U)"
    by (auto simp: mk_ReadTableNode_def split: if_splits)
  with ReadTableNode.prems(4,5) scan_fields_prune [of sl U] show ?case by simp
next
  case (CachedTableNode src sl sess orig)
  then have "fs = scan_fields sl" "fs' = scan_fields (prune_scan_list sl U)"
    by (auto simp: mk_CachedTableNode_def split: if_splits)
  with CachedTableNode.prems(4,5) scan_fields_prune [of sl U] show ?case by simp
next
  case (PromoteOffsetsNode c col)
  from PromoteOffsetsNode.prems(2) obtain cf where
    f: "fields X c = Inr cf" "fs = cf @ [(col, INT_DTYPE)]"
    by (auto split: sum.splits)
  show ?case
  proof (cases "col \<in> U")
    case False
    with PromoteOffsetsNode.prems(1) have pc: "prune X c U = Inr T'" by simp
    from False PromoteOffsetsNode.prems(4,5) f(2) have "k \<in> fst ` set cf" by auto
    from PromoteOffsetsNode.IH [OF pc f(1) PromoteOffsetsNode.prems(3,4) this] show ?thesis .
  next
    case True
    with PromoteOffsetsNode.prems(1) obtain c' where
      pc: "prune X c (U - {col}) = Inr c'" and T': "T' = PromoteOffsetsNode c' col"
      by (auto simp: Let_def split: sum.splits)
    from PromoteOffsetsNode.prems(3) T' obtain cf' where
      f': "fields X c' = Inr cf'" "fs' = cf' @ [(col, INT_DTYPE)]"
      by (auto split: sum.splits)
    show ?thesis
    proof (cases "k = col")
      case True
      with f'(2) show ?thesis by simp
    next
      case False
      with PromoteOffsetsNode.prems(4,5) f(2) have "k \<in> U - {col}" "k \<in> fst ` set cf" by auto
      from PromoteOffsetsNode.IH [OF pc f(1) f'(1) this] f'(2) show ?thesis by auto
    qed
  qed
next
  case (FilterNode c p)
  from FilterNode.prems(1) obtain c' where
    pc: "prune X c (U \<union> set (column_references p)) = Inr c'" and T': "T' = FilterNode c' p"
    by (auto simp: Let_def split: sum.splits)
  from FilterNode.prems T' have "fields X c = Inr fs" "fields X c' = Inr fs'"
    "k \<in> U \<union> set (column_references p)" by auto
  from FilterNode.IH [OF pc this FilterNode.prems(5)] show ?case .
next
  case (OrderByNode c obs)
  let ?V = "U \<union> set (concat (map referenced_columns obs))"
  from OrderByNode.prems(1) obtain c' where
    pc: "prune X c ?V = Inr c'" and T': "T' = OrderByNode c' obs"
    by (auto simp: Let_def split: sum.splits)
  from OrderByNode.prems T' have "fields X c = Inr fs" "fields X c' = Inr fs'" "k \<in> ?V"
    by auto
  from OrderByNode.IH [OF pc this OrderByNode.prems(5)] show ?case .
next
  case (ReversedNode c b)
  from ReversedNode.prems(1) obtain c' where
    pc: "prune X c U = Inr c'" and T': "T' = ReversedNode c' b"
    by (auto split: sum.splits)
  from ReversedNode.prems T' have "fields X c = Inr fs" "fields X c' = Inr fs'" by auto
  from ReversedNode.IH [OF pc this ReversedNode.prems(4,5)] show ?case .
next
  case (SelectionNode c pairs)
  let ?ps = "filter (\<lambda>select. snd select \<in> U) pairs"
  from SelectionNode.prems(1) obtain c' where T': "T' = SelectionNode c' ?ps"
    by (auto simp: Let_def split: sum.splits)
  from SelectionNode.prems(2) have "map fst fs = map snd pairs"
    by (auto split: sum.splits dest: map_err_fst_selection)
  then have a: "fst ` set fs = snd ` set pairs" by (metis list.set_map)
  from SelectionNode.prems(3) T' have "map fst fs' = map snd ?ps"
    by (auto split: sum.splits dest: map_err_fst_selection)
  then have b: "fst ` set fs' = snd ` set ?ps" by (metis list.set_map)
  from SelectionNode.prems(4,5) a b show ?case by auto
next
  case (ProjectionNode c assignments)
  let ?pa = "filter (\<lambda>i. snd i \<in> U) assignments"
  let ?V = "U \<union> set (concat (map (\<lambda>i. column_references (fst i)) ?pa))"
  from ProjectionNode.prems(2) obtain cf nf where
    f: "fields X c = Inr cf" "fs = cf @ nf" "map fst nf = map snd assignments"
    by (auto split: sum.splits dest: map_err_fst_assign)
  from f(3) have nf: "fst ` set nf = snd ` set assignments" by (metis list.set_map)
  show ?case
  proof (cases "?pa = []")
    case True
    with ProjectionNode.prems(1) have pc: "prune X c U = Inr T'" by (simp add: Let_def)
    from True ProjectionNode.prems(4) have "k \<notin> snd ` set assignments"
      by (auto simp: filter_empty_conv)
    with ProjectionNode.prems(5) f(2) nf have "k \<in> fst ` set cf" by auto
    from ProjectionNode.IH [OF pc f(1) ProjectionNode.prems(3,4) this] show ?thesis .
  next
    case False
    with ProjectionNode.prems(1) obtain c' where
      pc: "prune X c ?V = Inr c'" and T': "T' = ProjectionNode c' ?pa"
      by (auto simp: Let_def mk_ProjectionNode_def split: sum.splits if_splits)
    from ProjectionNode.prems(3) T' obtain cf' nf' where
      f': "fields X c' = Inr cf'" "fs' = cf' @ nf'" "map fst nf' = map snd ?pa"
      by (auto split: sum.splits dest: map_err_fst_assign)
    from f'(3) have nf': "fst ` set nf' = snd ` set ?pa" by (metis list.set_map)
    from ProjectionNode.prems(5) f(2) have "k \<in> fst ` set cf \<or> k \<in> fst ` set nf" by auto
    then show ?thesis
    proof
      assume kc: "k \<in> fst ` set cf"
      have "k \<in> ?V" using ProjectionNode.prems(4) by simp
      from ProjectionNode.IH [OF pc f(1) f'(1) this kc] f'(2) show ?thesis by auto
    next
      assume "k \<in> fst ` set nf"
      with nf ProjectionNode.prems(4) have "k \<in> snd ` set ?pa" by auto
      with nf' f'(2) show ?thesis by auto
    qed
  qed
next
  case (RowCountNode c)
  from RowCountNode.prems show ?case
    by (auto split: sum.splits)
next
  case (AggregateNode c aggs bys dropna)
  let ?pg = "filter (\<lambda>agg. snd agg \<in> U) aggs"
  from AggregateNode.prems(1) obtain c' where T': "T' = AggregateNode c' ?pg bys dropna"
    by (auto simp: Let_def split: sum.splits)
  from AggregateNode.prems(2) obtain cf bi ai where
    f0: "fs = bi @ ai"
      "map_err (\<lambda>ref. case get_type cf (deref_id ref) of
                  Inl e \<Rightarrow> Inl e | Inr d \<Rightarrow> Inr (deref_id ref, d)) bys = Inr bi"
      "map_err (\<lambda>(agg, i). case agg_output_type X agg (dtype_lookup cf) of
                  None \<Rightarrow> Inl TypeError | Some d \<Rightarrow> Inr (i, dtype_for_etype X d)) aggs = Inr ai"
    by (auto split: sum.splits)
  note f = f0(1) map_err_fst_by [OF f0(2)] map_err_fst_assign [OF f0(3)]
  from AggregateNode.prems(3) T' obtain cf' bi' ai' where
    f0': "fs' = bi' @ ai'"
      "map_err (\<lambda>ref. case get_type cf' (deref_id ref) of
                  Inl e \<Rightarrow> Inl e | Inr d \<Rightarrow> Inr (deref_id ref, d)) bys = Inr bi'"
      "map_err (\<lambda>(agg, i). case agg_output_type X agg (dtype_lookup cf') of
                  None \<Rightarrow> Inl TypeError | Some d \<Rightarrow> Inr (i, dtype_for_etype X d)) ?pg = Inr ai'"
    by (auto split: sum.splits)
  note f' = f0'(1) map_err_fst_by [OF f0'(2)] map_err_fst_assign [OF f0'(3)]
  from f(2) f'(2) have b: "fst ` set bi = fst ` set bi'" by (metis list.set_map)
  from f(3) have a: "fst ` set ai = snd ` set aggs" by (metis list.set_map)
  from f'(3) have a': "fst ` set ai' = snd ` set ?pg" by (metis list.set_map)
  from AggregateNode.prems(5) f(1) have "k \<in> fst ` set bi \<or> k \<in> fst ` set ai" by auto
  then show ?case
  proof
    assume "k \<in> fst ` set bi"
    with b f'(1) show ?thesis by auto
  next
    assume "k \<in> fst ` set ai"
    with a AggregateNode.prems(4) have "k \<in> snd ` set ?pg" by auto
    with a' f'(1) show ?thesis by auto
  qed
next
  case (WindowOpNode c cn op spec out nsn sru)
  from WindowOpNode.prems(2) obtain cf d where
    f: "fields X c = Inr cf" "fs = cf @ [(out, d)]"
    by (auto split: sum.splits option.splits)
  show ?case
  proof (cases "out \<in> U")
    case False
    with WindowOpNode.prems(1) have T': "T' = c" by simp
    from False WindowOpNode.prems(4,5) f(2) have "k \<in> fst ` set cf" by auto
    with T' f(1) WindowOpNode.prems(3) show ?thesis by simp
  next
    case True
    let ?V = "(U - {out}) \<union> {deref_id cn}"
    from True WindowOpNode.prems(1) obtain c' where
      pc: "prune X c ?V = Inr c'" and T': "T' = WindowOpNode c' cn op spec out nsn sru"
      by (auto simp: Let_def split: sum.splits)
    from WindowOpNode.prems(3) T' obtain cf' d' where
      f': "fields X c' = Inr cf'" "fs' = cf' @ [(out, d')]"
      by (auto split: sum.splits option.splits)
    show ?thesis
    proof (cases "k = out")
      case True
      with f'(2) show ?thesis by simp
    next
      case False
      with WindowOpNode.prems(4,5) f(2) have "k \<in> ?V" "k \<in> fst ` set cf" by auto
      from WindowOpNode.IH [OF pc f(1) f'(1) this] f'(2) show ?thesis by auto
    qed
  qed
next
  case (ReprojectOpNode c)
  from ReprojectOpNode.prems(1) obtain c' where
    pc: "prune X c U = Inr c'" and T': "T' = ReprojectOpNode c'"
    by (auto split: sum.splits)
  from ReprojectOpNode.prems T' have "fields X c = Inr fs" "fields X c' = Inr fs'" by auto
  from ReprojectOpNode.IH [OF pc this ReprojectOpNode.prems(4,5)] show ?case .
next
  case (RandomSampleNode c fraction)
  from RandomSampleNode.prems(1) obtain c' where
    pc: "prune X c U = Inr c'" and T': "T' = RandomSampleNode c' fraction"
    by (auto split: sum.splits)
  from RandomSampleNode.prems T' have "fields X c = Inr fs" "fields X c' = Inr fs'" by auto
  from RandomSampleNode.IH [OF pc this RandomSampleNode.prems(4,5)] show ?case .
next
  case (ExplodeNode c column_ids)
  let ?V = "U \<union> set (map deref_id column_ids)"
  from ExplodeNode.prems(1) obtain c' where
    pc: "prune X c ?V = Inr c'" and T': "T' = ExplodeNode c' column_ids"
    by (auto split: sum.splits)
  from ExplodeNode.prems(2) obtain cf where
    f: "fields X c = Inr cf" "map fst fs = map fst cf"
    by (auto split: sum.splits dest: map_err_fst_explode)
  from ExplodeNode.prems(3) T' obtain cf' where
    f': "fields X c' = Inr cf'" "map fst fs' = map fst cf'"
    by (auto split: sum.splits dest: map_err_fst_explode)
  from f(2) have a: "fst ` set fs = fst ` set cf" by (metis list.set_map)
  from f'(2) have a': "fst ` set fs' = fst ` set cf'" by (metis list.set_map)
  have "k \<in> ?V" using ExplodeNode.prems(4) by simp
  from ExplodeNode.IH [OF pc f(1) f'(1) this] ExplodeNode.prems(5) a a' show ?case by auto
qed

lemma set_join_key_ids:
  "set (join_key_ids conds) = deref_id ` fst ` set conds \<union> deref_id ` snd ` set conds"
  by (induction conds) (auto simp: join_key_ids_def)

lemma has_column_fields:
  "has_column X n k \<longleftrightarrow> (\<exists>fs. fields X n = Inr fs \<and> k \<in> fst ` set fs)"
  by (auto simp: has_column_def ids_def split: sum.splits)

text \<open>
  C6: \<^verbatim>\<open>JoinNode.prune\<close> prunes each child against the used columns enlarged by the ids of
  all join-key references, left and right, and rebuilds the join from the two results;
  when it returns, every join-key column that a child had is a column of the pruned child.
\<close>

theorem JoinNode_prune_keeps_join_keys:
  "prune X (JoinNode l r conds t) U =
     (case prune X l (U \<union> set (join_key_ids conds)) of Inl e \<Rightarrow> Inl e
      | Inr l' \<Rightarrow>
          (case prune X r (U \<union> set (join_key_ids conds)) of Inl e \<Rightarrow> Inl e
           | Inr r' \<Rightarrow> mk_JoinNode X l' r' conds t)) \<and>
   (\<forall>T'. prune X (JoinNode l r conds t) U = Inr T' \<longrightarrow>
      (\<exists>l' r'. T' = JoinNode l' r' conds t \<and>
         prune X l (U \<union> set (join_key_ids conds)) = Inr l' \<and>
         prune X r (U \<union> set (join_key_ids conds)) = Inr r' \<and>
         (\<forall>k \<in> set (join_key_ids conds).
            (has_column X l k \<longrightarrow> has_column X l' k) \<and>
            (has_column X r k \<longrightarrow> has_column X r' k))))"
proof (intro conjI allI impI)
  show "prune X (JoinNode l r conds t) U =
     (case prune X l (U \<union> set (join_key_ids conds)) of Inl e \<Rightarrow> Inl e
      | Inr l' \<Rightarrow>
          (case prune X r (U \<union> set (join_key_ids conds)) of Inl e \<Rightarrow> Inl e
           | Inr r' \<Rightarrow> mk_JoinNode X l' r' conds t))"
    by (simp add: Let_def)
next
  fix T'
  let ?V = "U \<union> set (join_key_ids conds)"
  assume p: "prune X (JoinNode l r conds t) U = Inr T'"
  then obtain l' r' where
    pl: "prune X l ?V = Inr l'" and pr: "prune X r ?V = Inr r'" and
    mk: "mk_JoinNode X l' r' conds t = Inr T'"
    by (auto simp: Let_def split: sum.splits)
  from mk obtain lf' rf' where
    f': "fields X l' = Inr lf'" "fields X r' = Inr rf'" and T': "T' = JoinNode l' r' conds t"
    by (auto simp: mk_JoinNode_def ids_def split: sum.splits if_splits)
  have keep: "has_column X l k \<longrightarrow> has_column X l' k" "has_column X r k \<longrightarrow> has_column X r' k"
    if "k \<in> set (join_key_ids conds)" for k
  proof -
    from that have kV: "k \<in> ?V" by simp
    show "has_column X l k \<longrightarrow> has_column X l' k"
      using prune_keeps_used [OF pl _ f'(1) kV] f'(1) by (auto simp: has_column_fields)
    show "has_column X r k \<longrightarrow> has_column X r' k"
      using prune_keeps_used [OF pr _ f'(2) kV] f'(2) by (auto simp: has_column_fields)
  qed
  with T' pl pr show "\<exists>l' r'. T' = JoinNode l' r' conds t \<and>
         prune X l ?V = Inr l' \<and> prune X r ?V = Inr r' \<and>
         (\<forall>k \<in> set (join_key_ids conds).
            (has_column X l k \<longrightarrow> has_column X l' k) \<and>
            (has_column X r k \<longrightarrow> has_column X r' k))"
    by blast
qed

lemma prune_join_xy: "prune simple_typing join_xy {''x''} = Inr join_xy"
  by (simp add: join_xy_def leaf_x_def leaf_y_def join_key_ids_def prune_scan_list_def
      scan_item_def mk_JoinNode_def ids_def scan_fields_def)

lemma has_column_leaf_y: "has_column simple_typing leaf_y ''y''"
  by (simp add: has_column_def ids_def leaf_y_def scan_fields_def scan_item_def)

text \<open>
  The assertion of \<^verbatim>\<open>ProjectionNode\<close> holds of every child and every list of assignments,
  so a projection whose assignments are typed is constructed, also when it assigns a name
  that the child has: \<open>projection_a\<close> assigns \<open>b + 1\<close> to \<open>a\<close> over the columns \<open>a\<close> and
  \<open>b\<close>. A join over it is pruned like any other.
\<close>

lemma ProjectionNode_assertion_holds:
  "list_all (\<lambda>(ex, name). ColumnId_object name \<notin> set (map str_object (schema_names cf)))
     assignments"
  by (auto simp: list_all_iff)

lemma mk_ProjectionNode_typed:
  assumes "fields X child = Inr cf"
    and "map_err (\<lambda>(ex, i). case expr_output_type X ex (dtype_lookup cf) of
                     None \<Rightarrow> Inl TypeError | Some d \<Rightarrow> Inr d) assignments = Inr ts"
  shows "mk_ProjectionNode X child assignments = Inr (ProjectionNode child assignments)"
  using assms ProjectionNode_assertion_holds [of cf assignments]
  by (simp add: mk_ProjectionNode_def)

lemma mk_projection_a:
  "mk_ProjectionNode simple_typing leaf_ab [(b_plus_1, ''a'')] = Inr projection_a"
  using mk_ProjectionNode_typed
          [of simple_typing leaf_ab
              "scan_fields (ScanList [scan_item ''a'' INT_DTYPE, scan_item ''b'' INT_DTYPE])"
              "[(b_plus_1, ''a'')]" "[INT_DTYPE]"]
  by (simp add: leaf_ab_def simple_typing_def projection_a_def)

lemma prune_join_projection_y:
  "prune simple_typing join_projection_y {''y''} = Inr join_projection_y"
proof -
  have l: "prune simple_typing leaf_ab {''y'', ''a'', ''b''} = Inr leaf_ab"
    by (simp add: leaf_ab_def prune_scan_list_def scan_item_def)
  have r: "prune simple_typing leaf_y {''y'', ''a''} = Inr leaf_y"
    by (simp add: leaf_y_def prune_scan_list_def scan_item_def)
  have f: "ids simple_typing projection_a = Inr [''a'', ''b'', ''a'']"
    "ids simple_typing leaf_y = Inr [''y'']"
    by (simp_all add: ids_def projection_a_def leaf_ab_def leaf_y_def scan_fields_def scan_item_def
        simple_typing_def)
  have m: "mk_JoinNode simple_typing projection_a leaf_y [(DerefOp ''a'', DerefOp ''y'')] Inner
             = Inr join_projection_y"
    by (simp add: mk_JoinNode_def f join_projection_y_def)
  have u: "insert ''y'' (set (join_key_ids [(DerefOp ''a'', DerefOp ''y'')])) = {''y'', ''a''}"
    "insert ''y'' (insert ''a'' (set (column_references b_plus_1))) = {''y'', ''a'', ''b''}"
    by (auto simp: join_key_ids_def b_plus_1_def)
  show ?thesis
    by (simp add: join_projection_y_def projection_a_def u l r mk_projection_a m
        [unfolded join_projection_y_def projection_a_def])
qed

lemma has_column_projection_a: "has_column simple_typing projection_a ''a''"
  by (simp add: has_column_def ids_def projection_a_def leaf_ab_def scan_fields_def scan_item_def
      simple_typing_def)

text \<open>
  The join of \<open>x\<close> and \<open>y\<close> on \<open>x = y\<close>, pruned with only \<open>x\<close> used: the right child of
  the result still has the key \<open>y\<close>. The join of \<open>projection_a\<close> and \<open>y\<close> on \<open>a = y\<close>,
  pruned with only \<open>y\<close> used: the left child of the result still has the key \<open>a\<close>.
\<close>

theorem JoinNode_prune_keeps_join_keys_witness:
  "prune simple_typing join_xy {''x''} = Inr join_xy \<and>
   (\<exists>l' r'. join_xy = JoinNode l' r' [(DerefOp ''x'', DerefOp ''y'')] Left \<and>
      has_column simple_typing r' ''y'') \<and>
   prune simple_typing join_projection_y {''y''} = Inr join_projection_y \<and>
   (\<exists>l' r'. join_projection_y = JoinNode l' r' [(DerefOp ''a'', DerefOp ''y'')] Inner \<and>
      has_column simple_typing l' ''a'')"
proof -
  let ?conds = "[(DerefOp ''x'', DerefOp ''y'')]"
  have p: "prune simple_typing (JoinNode leaf_x leaf_y ?conds Left) {''x''} = Inr join_xy"
    using prune_join_xy by (simp add: join_xy_def)
  have k: "''y'' \<in> set (join_key_ids ?conds)" by (simp add: join_key_ids_def)
  from JoinNode_prune_keeps_join_keys [of simple_typing leaf_x leaf_y ?conds Left "{''x''}"] p
  obtain l' r' where
    "join_xy = JoinNode l' r' ?conds Left"
    "\<forall>k \<in> set (join_key_ids ?conds).
        (has_column simple_typing leaf_x k \<longrightarrow> has_column simple_typing l' k) \<and>
        (has_column simple_typing leaf_y k \<longrightarrow> has_column simple_typing r' k)"
    by blast
  with k has_column_leaf_y have first:
    "\<exists>l' r'. join_xy = JoinNode l' r' ?conds Left \<and> has_column simple_typing r' ''y''"
    by blast
  let ?conds2 = "[(DerefOp ''a'', DerefOp ''y'')]"
  have p2: "prune simple_typing (JoinNode projection_a leaf_y ?conds2 Inner) {''y''}
              = Inr join_projection_y"
    using prune_join_projection_y by (simp add: join_projection_y_def)
  have k2: "''a'' \<in> set (join_key_ids ?conds2)" by (simp add: join_key_ids_def)
  from JoinNode_prune_keeps_join_keys
         [of simple_typing projection_a leaf_y ?conds2 Inner "{''y''}"] p2
  obtain l2 r2 where
    "join_projection_y = JoinNode l2 r2 ?conds2 Inner"
    "\<forall>k \<in> set (join_key_ids ?conds2).
        (has_column simple_typing projection_a k \<longrightarrow> has_column simple_typing l2 k) \<and>
        (has_column simple_typing leaf_y k \<longrightarrow> has_column simple_typing r2 k)"
    by blast
  with k2 has_column_projection_a have second:
    "\<exists>l' r'. join_projection_y = JoinNode l' r' ?conds2 Inner \<and> has_column simple_typing l' ''a''"
    by blast
  from prune_join_xy first prune_join_projection_y second show ?thesis by simp
qed

section \<open>Pruning twice\<close>

text \<open>
  On a tree without a \<^verbatim>\<open>WindowOpNode\<close>, a tree that \<^verbatim>\<open>prune\<close> returns is pruned to itself
  by the same set of used columns.
\<close>

lemma prune_scan_list_idem: "prune_scan_list (prune_scan_list sl U) U = prune_scan_list sl U"
  by (simp add: prune_scan_list_def)

lemma prune_idempotent_window_free:
  "window_free T \<Longrightarrow> prune X T U = Inr T' \<Longrightarrow> prune X T' U = Inr T'"
proof (induction T arbitrary: U T')
  case (JoinNode l r conds t)
  let ?V = "U \<union> set (join_key_ids conds)"
  from JoinNode.prems(2) obtain l' r' where
    pl: "prune X l ?V = Inr l'" and pr: "prune X r ?V = Inr r'" and
    mk: "mk_JoinNode X l' r' conds t = Inr T'"
    by (auto simp: Let_def split: sum.splits)
  from mk have T': "T' = JoinNode l' r' conds t"
    by (auto simp: mk_JoinNode_def split: sum.splits if_splits)
  from JoinNode.prems(1) have "window_free l" "window_free r" by auto
  from JoinNode.IH(1) [OF this(1) pl] JoinNode.IH(2) [OF this(2) pr] mk T' show ?case
    by (simp add: Let_def)
next
  case (ConcatNode cs)
  from ConcatNode.prems show ?case by auto
next
  case (FromRangeNode s e step)
  from FromRangeNode.prems show ?case by auto
next
  case (ReadLocalNode fb ds n sl sess)
  from ReadLocalNode.prems show ?case by (auto simp: prune_scan_list_idem)
next
  case (ReadTableNode src sl sess)
  from ReadTableNode.prems show ?case
    by (auto simp: prune_scan_list_idem mk_ReadTableNode_def split: if_splits)
next
  case (CachedTableNode src sl sess orig)
  from CachedTableNode.prems show ?case
    by (auto simp: prune_scan_list_idem mk_CachedTableNode_def split: if_splits)
next
  case (PromoteOffsetsNode c col)
  from PromoteOffsetsNode.prems(1) have wf: "window_free c" by simp
  show ?case
  proof (cases "col \<in> U")
    case False
    with PromoteOffsetsNode.prems(2) have "prune X c U = Inr T'" by simp
    from PromoteOffsetsNode.IH [OF wf this] show ?thesis .
  next
    case True
    with PromoteOffsetsNode.prems(2) obtain c' where
      pc: "prune X c (U - {col}) = Inr c'" and T': "T' = PromoteOffsetsNode c' col"
      by (auto simp: Let_def split: sum.splits)
    from PromoteOffsetsNode.IH [OF wf pc] T' True show ?thesis
      by (simp add: Let_def)
  qed
next
  case (FilterNode c p)
  from FilterNode.prems(2) obtain c' where
    pc: "prune X c (U \<union> set (column_references p)) = Inr c'" and T': "T' = FilterNode c' p"
    by (auto simp: Let_def split: sum.splits)
  from FilterNode.prems(1) have "window_free c" by simp
  from FilterNode.IH [OF this pc] T' show ?case
    by (simp add: Let_def)
next
  case (OrderByNode c obs)
  from OrderByNode.prems(2) obtain c' where
    pc: "prune X c (U \<union> set (concat (map referenced_columns obs))) = Inr c'" and T': "T' = OrderByNode c' obs"
    by (auto simp: Let_def split: sum.splits)
  from OrderByNode.prems(1) have "window_free c" by simp
  from OrderByNode.IH [OF this pc] T' show ?case
    by (simp add: Let_def)
next
  case (ReversedNode c b)
  from ReversedNode.prems(2) obtain c' where
    pc: "prune X c (U) = Inr c'" and T': "T' = ReversedNode c' b"
    by (auto simp: Let_def split: sum.splits)
  from ReversedNode.prems(1) have "window_free c" by simp
  from ReversedNode.IH [OF this pc] T' show ?case
    by (simp add: Let_def)
next
  case (SelectionNode c pairs)
  from SelectionNode.prems(2) obtain c' where
    pc: "prune X c (set (map (\<lambda>i. deref_id (fst i)) (filter (\<lambda>select. snd select \<in> U) pairs))) = Inr c'" and T': "T' = SelectionNode c' (filter (\<lambda>select. snd select \<in> U) pairs)"
    by (auto simp: Let_def split: sum.splits)
  from SelectionNode.prems(1) have "window_free c" by simp
  from SelectionNode.IH [OF this pc] T' show ?case
    by (simp add: Let_def)
next
  case (ProjectionNode c assignments)
  let ?pa = "filter (\<lambda>i. snd i \<in> U) assignments"
  let ?V = "U \<union> set (concat (map (\<lambda>i. column_references (fst i)) ?pa))"
  from ProjectionNode.prems(1) have wf: "window_free c" by simp
  show ?case
  proof (cases "?pa = []")
    case True
    with ProjectionNode.prems(2) have "prune X c U = Inr T'" by (simp add: Let_def)
    from ProjectionNode.IH [OF wf this] show ?thesis .
  next
    case False
    with ProjectionNode.prems(2) obtain c' where
      pc: "prune X c ?V = Inr c'" and mk: "mk_ProjectionNode X c' ?pa = Inr T'"
      by (auto simp: Let_def split: sum.splits)
    from mk have T': "T' = ProjectionNode c' ?pa"
      by (auto simp: mk_ProjectionNode_def split: sum.splits if_splits)
    from ProjectionNode.IH [OF wf pc] False mk T' show ?thesis
      by (simp add: Let_def)
  qed
next
  case (RowCountNode c)
  from RowCountNode.prems(2) obtain c' where
    pc: "prune X c (U) = Inr c'" and T': "T' = RowCountNode c'"
    by (auto simp: Let_def split: sum.splits)
  from RowCountNode.prems(1) have "window_free c" by simp
  from RowCountNode.IH [OF this pc] T' show ?case
    by (simp add: Let_def)
next
  case (AggregateNode c aggs bys dropna)
  from AggregateNode.prems(2) obtain c' where
    pc: "prune X c (set (map deref_id bys @ concat (map (\<lambda>agg. agg_column_references (fst agg)) (filter (\<lambda>agg. snd agg \<in> U) aggs)))) = Inr c'" and T': "T' = AggregateNode c' (filter (\<lambda>agg. snd agg \<in> U) aggs) bys dropna"
    by (auto simp: Let_def split: sum.splits)
  from AggregateNode.prems(1) have "window_free c" by simp
  from AggregateNode.IH [OF this pc] T' show ?case
    by (simp add: Let_def)
next
  case (WindowOpNode c cn op spec out nsn sru)
  from WindowOpNode.prems show ?case by simp
next
  case (ReprojectOpNode c)
  from ReprojectOpNode.prems(2) obtain c' where
    pc: "prune X c (U) = Inr c'" and T': "T' = ReprojectOpNode c'"
    by (auto simp: Let_def split: sum.splits)
  from ReprojectOpNode.prems(1) have "window_free c" by simp
  from ReprojectOpNode.IH [OF this pc] T' show ?case
    by (simp add: Let_def)
next
  case (RandomSampleNode c fraction)
  from RandomSampleNode.prems(2) obtain c' where
    pc: "prune X c (U) = Inr c'" and T': "T' = RandomSampleNode c' fraction"
    by (auto simp: Let_def split: sum.splits)
  from RandomSampleNode.prems(1) have "window_free c" by simp
  from RandomSampleNode.IH [OF this pc] T' show ?case
    by (simp add: Let_def)
next
  case (ExplodeNode c column_ids)
  from ExplodeNode.prems(2) obtain c' where
    pc: "prune X c (U \<union> set (map deref_id column_ids)) = Inr c'" and T': "T' = ExplodeNode c' column_ids"
    by (auto simp: Let_def split: sum.splits)
  from ExplodeNode.prems(1) have "window_free c" by simp
  from ExplodeNode.IH [OF this pc] T' show ?case
    by (simp add: Let_def)
qed

section \<open>Join keys\<close>





lemma value_to_join_key_examples:
  "value_to_join_key (TableColumn table_l ''k'' Int64) =
     FillNull (Cast (TableColumn table_l ''k'' Int64) String) (Literal ''$NULL_SENTINEL$'')"
  "value_to_join_key (TableColumn table_r ''k2'' String) =
     FillNull (TableColumn table_r ''k2'' String) (Literal ''$NULL_SENTINEL$'')"
  by (simp_all add: value_to_join_key_def is_string_def NULL_SENTINEL_def)

section \<open>The default ordering\<close>

lemma replace_all_backslash:
  "replace_all backslash (backslash @ backslash) s = escape_backslashes s"
proof (induction s)
  case Nil
  then show ?case by (simp add: replace_all.simps escape_backslashes_def)
next
  case (Cons c s)
  then show ?case
    by (subst replace_all.simps) (auto simp: escape_backslashes_def backslash_def)
qed

lemma table_getitem_own:
  assumes "distinct (map fst sch)" and "c \<in> set sch" and "tbl_schema t = sch"
  shows "table_getitem t (fst c) = Inr (TableColumn t (fst c) (snd c))"
  using assms by (cases c) (simp add: table_getitem_def)

lemma map_err_Inr_map:
  "(\<And>x. x \<in> set xs \<Longrightarrow> f x = Inr (g x)) \<Longrightarrow> map_err f xs = Inr (map g xs)"
  by (induction xs) auto

lemma str_values_distinct:
  assumes "distinct (tbl_columns t)"
  shows "str_values t =
     Inr (map (\<lambda>c. convert_to_nonnull_string (TableColumn t (fst c) (snd c))) (tbl_schema t))"
proof -
  have "map_err (\<lambda>col. case table_getitem t col of Inl e \<Rightarrow> Inl e
                     | Inr column \<Rightarrow> Inr (convert_to_nonnull_string column))
       (map fst (tbl_schema t)) =
     Inr (map (\<lambda>col. convert_to_nonnull_string (TableColumn t col (the (map_of (tbl_schema t) col))))
        (map fst (tbl_schema t)))"
    by (rule map_err_Inr_map) (auto simp: table_getitem_def split: option.splits dest: weak_map_of_SomeI)
  moreover have "map (\<lambda>col. convert_to_nonnull_string (TableColumn t col (the (map_of (tbl_schema t) col))))
        (map fst (tbl_schema t)) =
      map (\<lambda>c. convert_to_nonnull_string (TableColumn t (fst c) (snd c))) (tbl_schema t)"
    using assms by (auto simp: tbl_columns_def)
  ultimately show ?thesis by (simp add: str_values_def tbl_columns_def)
qed

lemma eval_convert:
  assumes "text_or_null (eval E row (text_result col))"
  shows "eval E row (convert_to_nonnull_string col) =
     SString (backslash @ escape_backslashes (text_of (eval E row (text_result col))))"
  using assms
  by (cases "eval E row (text_result col)")
     (auto simp: convert_to_nonnull_string_def text_or_null_def is_text_def text_of_def
        sql_concat_def replace_all_backslash)

lemma eval_concat_convert:
  assumes "list_all (\<lambda>c. text_or_null (eval E row (text_result c))) cols"
  shows "sql_concat (map (\<lambda>c. eval E row (convert_to_nonnull_string c)) cols) =
     SString (concat (map (\<lambda>c. backslash @ escape_backslashes (text_of (eval E row (text_result c)))) cols))"
proof -
  have e: "map (\<lambda>c. eval E row (convert_to_nonnull_string c)) cols =
        map (\<lambda>c. SString (backslash @ escape_backslashes (text_of (eval E row (text_result c))))) cols"
    using assms by (auto simp: list_all_iff eval_convert)
  show ?thesis
    unfolding e by (simp add: sql_concat_def list_all_iff is_text_def comp_def text_of_def [of "SString _"])
qed

lemma eval_text_result:
  "eval E row (text_result (TableColumn t n d)) =
     (if row t n = SNull \<and> \<not> uses_json_fallback d then SNull
      else spec_text_form E d (row t n))"
  by (cases "row t n") (auto simp: text_result_def spec_text_form_def uses_json_fallback_def Let_def)

lemma text_of_eval_text_result:
  "text_of (eval E row (text_result (TableColumn t n d))) =
     (if row t n = SNull \<and> \<not> uses_json_fallback d then []
      else text_of (spec_text_form E d (row t n)))"
  by (simp add: eval_text_result text_of_def)

lemma text_forms_are_texts_eval:
  assumes "text_forms_are_texts E row t"
  shows "list_all (\<lambda>c. text_or_null (eval E row (text_result c)))
           (map (\<lambda>c. TableColumn t (fst c) (snd c)) (tbl_schema t))"
  using assms
  by (auto simp: text_forms_are_texts_def list_all_iff eval_text_result text_or_null_def)

lemma amended_fingerprint_eval:
  "amended_fingerprint E row t =
     concat (map (\<lambda>c. backslash @ escape_backslashes (text_of (eval E row (text_result c))))
               (map (\<lambda>c. TableColumn t (fst c) (snd c)) (tbl_schema t)))"
  by (simp add: amended_fingerprint_def comp_def text_of_eval_text_result)

lemma amended_fingerprint_is_spec:
  assumes "json_nulls_are_empty E row t"
  shows "amended_fingerprint E row t = spec_fingerprint E row t"
proof -
  have "(if row t (fst c) = SNull \<and> \<not> uses_json_fallback (snd c) then []
         else text_of (spec_text_form E (snd c) (row t (fst c)))) =
        (if row t (fst c) = SNull then []
         else text_of (spec_text_form E (snd c) (row t (fst c))))"
    if "c \<in> set (tbl_schema t)" for c
    using assms that
    by (auto simp: json_nulls_are_empty_def list_all_iff spec_text_form_def uses_json_fallback_def)
  then show ?thesis
    by (simp add: amended_fingerprint_def spec_fingerprint_def cong: map_cong)
qed

lemma full_row_str_nonempty:
  assumes "distinct (tbl_columns t)" and "tbl_columns t \<noteq> []"
  shows "\<exists>F. full_row_str t = Inr F \<and>
     (\<forall>E row. text_forms_are_texts E row t \<longrightarrow>
        eval E row F = SString (amended_fingerprint E row t))"
proof (cases "length (tbl_schema t) > 1")
  case True
  let ?cols = "map (\<lambda>c. TableColumn t (fst c) (snd c)) (tbl_schema t)"
  have F: "full_row_str t = Inr (StringConcat (map convert_to_nonnull_string ?cols))"
    using True by (simp add: full_row_str_def str_values_distinct [OF assms(1)] comp_def)
  have "eval E row (StringConcat (map convert_to_nonnull_string ?cols)) =
          SString (amended_fingerprint E row t)"
    if "text_forms_are_texts E row t" for E row
    using eval_concat_convert [OF text_forms_are_texts_eval [OF that]]
    by (simp add: amended_fingerprint_eval comp_def)
  with F show ?thesis by blast
next
  case False
  with assms(2) obtain c where c: "tbl_schema t = [c]"
    by (cases "tbl_schema t") (auto simp: tbl_columns_def)
  have F: "full_row_str t = Inr (convert_to_nonnull_string (TableColumn t (fst c) (snd c)))"
    by (simp add: full_row_str_def str_values_distinct [OF assms(1)] c)
  have "eval E row (convert_to_nonnull_string (TableColumn t (fst c) (snd c))) =
          SString (amended_fingerprint E row t)"
    if "text_forms_are_texts E row t" for E row
    using text_forms_are_texts_eval [OF that]
    by (simp add: c eval_convert amended_fingerprint_eval)
  with F show ?thesis by blast
qed

text \<open>
  C9, for a table with at least one column (and, as every table, no two columns of one
  name): \<^verbatim>\<open>gen_default_ordering\<close> returns the hash of the row string, the hash of the row
  string with \<open>_\<close> appended and a random value, or without the second hash when
  \<^verbatim>\<open>use_double_hash\<close> is false. Where the text forms are texts, the row string evaluates to
  the amended fingerprint: a null is the empty text in a column that is cast, rendered as
  geography text or passed through, and is serialized first in a column of the JSON
  fallback. It is the fingerprint of the specification, every null the empty text, when no
  JSON fallback column holds a null or the engine's JSON text of null is null or empty.
\<close>

theorem gen_default_ordering_nonempty:
  assumes "distinct (tbl_columns t)" and "tbl_columns t \<noteq> []"
  shows "\<exists>F. full_row_str t = Inr F \<and>
     gen_default_ordering G k t True =
       Inr [Alias (Hash F) (G ''bigframes_ordering_'' k),
            Alias (Hash (StringConcat [F, Literal ''_''])) (G ''bigframes_ordering_'' (k + 1)),
            Alias RandomScalar (G ''bigframes_ordering_'' (k + 2))] \<and>
     gen_default_ordering G k t False =
       Inr [Alias (Hash F) (G ''bigframes_ordering_'' k),
            Alias RandomScalar (G ''bigframes_ordering_'' (k + 2))] \<and>
     (\<forall>E row. text_forms_are_texts E row t \<longrightarrow>
        eval E row F = SString (amended_fingerprint E row t)) \<and>
     (\<forall>E row. text_forms_are_texts E row t \<and> json_nulls_are_empty E row t \<longrightarrow>
        eval E row F = SString (spec_fingerprint E row t))"
proof -
  from full_row_str_nonempty [OF assms] obtain F where
    F: "full_row_str t = Inr F"
      "\<forall>E row. text_forms_are_texts E row t \<longrightarrow>
        eval E row F = SString (amended_fingerprint E row t)"
    by blast
  from F(1) have g: "gen_default_ordering G k t True =
       Inr [Alias (Hash F) (G ''bigframes_ordering_'' k),
            Alias (Hash (StringConcat [F, Literal ''_''])) (G ''bigframes_ordering_'' (k + 1)),
            Alias RandomScalar (G ''bigframes_ordering_'' (k + 2))]"
    "gen_default_ordering G k t False =
       Inr [Alias (Hash F) (G ''bigframes_ordering_'' k),
            Alias RandomScalar (G ''bigframes_ordering_'' (k + 2))]"
    by (simp_all add: gen_default_ordering_def)
  from F(2) have s: "\<forall>E row. text_forms_are_texts E row t \<and> json_nulls_are_empty E row t \<longrightarrow>
        eval E row F = SString (spec_fingerprint E row t)"
    by (auto simp: amended_fingerprint_is_spec)
  from F g s show ?thesis by blast
qed

lemma full_row_str_table_j:
  "full_row_str table_j = Inr (convert_to_nonnull_string (TableColumn table_j ''doc'' JSON))"
  by (simp add: full_row_str_def str_values_def table_j_def tbl_columns_def table_getitem_def)

lemma eval_row_str_table_j:
  "eval plain_engine null_row (convert_to_nonnull_string (TableColumn table_j ''doc'' JSON)) =
     SString (backslash @ ''null'')"
  using eval_convert [of plain_engine null_row "TableColumn table_j ''doc'' JSON"]
  by (simp add: text_result_def null_row_def plain_engine_def text_or_null_def
      is_numeric_def is_boolean_def is_binary_def is_temporal_def is_geospatial_def
      is_string_def is_text_def text_of_def escape_backslashes_def backslash_def)

lemma spec_fingerprint_table_j: "spec_fingerprint plain_engine null_row table_j = backslash"
  by (simp add: spec_fingerprint_def table_j_def null_row_def escape_backslashes_def)

text \<open>
  C9 as stated fails on two inputs. On the table without columns, \<^verbatim>\<open>str_values[0]\<close>
  raises \<^verbatim>\<open>IndexError\<close>. On a table with one JSON column and a row in which it is null,
  under an engine whose JSON text of null is the text \<open>null\<close>, the row string is a
  backslash followed by \<open>null\<close>, where the fingerprint of the specification, a null being
  the empty text, is the backslash alone.
\<close>

theorem gen_default_ordering_counterexample:
  "gen_default_ordering numbered_guid 0 empty_table True = Inl IndexError \<and>
   full_row_str table_j = Inr (convert_to_nonnull_string (TableColumn table_j ''doc'' JSON)) \<and>
   eval plain_engine null_row (convert_to_nonnull_string (TableColumn table_j ''doc'' JSON)) =
     SString (backslash @ ''null'') \<and>
   spec_fingerprint plain_engine null_row table_j = backslash"
proof -
  have "gen_default_ordering numbered_guid 0 empty_table True = Inl IndexError"
    by (simp add: gen_default_ordering_def full_row_str_def str_values_def empty_table_def
        tbl_columns_def)
  with full_row_str_table_j eval_row_str_table_j spec_fingerprint_table_j show ?thesis by simp
qed

lemma table_l_columns: "tbl_columns table_l = [''k'', ''v'']"
  by (simp add: tbl_columns_def table_l_def)

lemma table_l_text_forms:
  "text_forms_are_texts plain_engine row_a table_l"
  "json_nulls_are_empty plain_engine row_a table_l"
  by (simp_all add: text_forms_are_texts_def json_nulls_are_empty_def table_l_def
      spec_text_form_def uses_json_fallback_def text_or_null_def row_a_def is_text_def
      is_numeric_def is_boolean_def is_binary_def is_temporal_def is_geospatial_def is_string_def)

lemma spec_fingerprint_table_l:
  "spec_fingerprint plain_engine row_a table_l = backslash @ backslash @ ''a''"
  by (simp add: spec_fingerprint_def table_l_def spec_text_form_def is_numeric_def row_a_def
      is_boolean_def is_binary_def is_temporal_def is_geospatial_def is_string_def
      text_of_def escape_backslashes_def backslash_def)

theorem gen_default_ordering_nonempty_witness:
  "distinct (tbl_columns table_l) \<and> tbl_columns table_l \<noteq> [] \<and>
   text_forms_are_texts plain_engine row_a table_l \<and>
   json_nulls_are_empty plain_engine row_a table_l \<and>
   (\<exists>F. gen_default_ordering numbered_guid 0 table_l True =
        Inr [Alias (Hash F) ''bigframes_ordering_0'',
             Alias (Hash (StringConcat [F, Literal ''_''])) ''bigframes_ordering_1'',
             Alias RandomScalar ''bigframes_ordering_2''] \<and>
      gen_default_ordering numbered_guid 0 table_l False =
        Inr [Alias (Hash F) ''bigframes_ordering_0'',
             Alias RandomScalar ''bigframes_ordering_2''] \<and>
      eval plain_engine row_a F = SString (amended_fingerprint plain_engine row_a table_l) \<and>
      eval plain_engine row_a F = SString (backslash @ backslash @ ''a''))"
proof -
  have d: "distinct (tbl_columns table_l)" and n: "tbl_columns table_l \<noteq> []"
    by (simp_all add: table_l_columns)
  from gen_default_ordering_nonempty [OF d n, of numbered_guid 0] table_l_text_forms
  obtain F where
    "gen_default_ordering numbered_guid 0 table_l True =
       Inr [Alias (Hash F) (numbered_guid ''bigframes_ordering_'' 0),
            Alias (Hash (StringConcat [F, Literal ''_''])) (numbered_guid ''bigframes_ordering_'' (0 + 1)),
            Alias RandomScalar (numbered_guid ''bigframes_ordering_'' (0 + 2))]"
    "gen_default_ordering numbered_guid 0 table_l False =
       Inr [Alias (Hash F) (numbered_guid ''bigframes_ordering_'' 0),
            Alias RandomScalar (numbered_guid ''bigframes_ordering_'' (0 + 2))]"
    "eval plain_engine row_a F = SString (amended_fingerprint plain_engine row_a table_l)"
    "eval plain_engine row_a F = SString (spec_fingerprint plain_engine row_a table_l)"
    by blast
  then have "gen_default_ordering numbered_guid 0 table_l True =
        Inr [Alias (Hash F) ''bigframes_ordering_0'',
             Alias (Hash (StringConcat [F, Literal ''_''])) ''bigframes_ordering_1'',
             Alias RandomScalar ''bigframes_ordering_2''] \<and>
      gen_default_ordering numbered_guid 0 table_l False =
        Inr [Alias (Hash F) ''bigframes_ordering_0'',
             Alias RandomScalar ''bigframes_ordering_2''] \<and>
      eval plain_engine row_a F = SString (amended_fingerprint plain_engine row_a table_l) \<and>
      eval plain_engine row_a F = SString (backslash @ backslash @ ''a'')"
    by (simp add: numbered_guid_def str_nat.simps spec_fingerprint_table_l)
  with d n table_l_text_forms show ?thesis by blast
qed

text \<open>The delimiter keeps ("a", "bc") and ("ab", "c") apart.\<close>

lemma fingerprint_delimiter_example:
  "backslash @ escape_backslashes ''a'' @ backslash @ escape_backslashes ''bc'' \<noteq>
   backslash @ escape_backslashes ''ab'' @ backslash @ escape_backslashes ''c''"
  by (simp add: escape_backslashes_def backslash_def)

section \<open>The join compiler\<close>

subsection \<open>Dictionaries built by \<^verbatim>\<open>zip\<close>\<close>

lemma dict_of_distinct:
  assumes "distinct (map fst kvs)"
  shows "dict_of kvs = map_of kvs"
proof
  fix k
  have d: "distinct (map fst (rev kvs))" using assms by (simp add: rev_map [symmetric])
  show "dict_of kvs k = map_of kvs k"
  proof (cases "map_of kvs k")
    case None
    then have "k \<notin> fst ` set kvs" by (simp add: map_of_eq_None_iff)
    then have "map_of (rev kvs) k = None" by (simp add: map_of_eq_None_iff)
    with None show ?thesis by (simp add: dict_of_def)
  next
    case (Some v)
    then have "(k, v) \<in> set (rev kvs)" by (auto dest: map_of_SomeD)
    with d have "map_of (rev kvs) k = Some v" by (simp add: map_of_eq_Some_iff del: set_rev)
    with Some show ?thesis by (simp add: dict_of_def)
  qed
qed

lemma dict_of_zip_nth:
  assumes "distinct ks" and "length vs = length ks" and "i < length ks"
  shows "dict_of (zip ks vs) (ks ! i) = Some (vs ! i)"
proof -
  have "dict_of (zip ks vs) = map_of (zip ks vs)"
    using assms(1,2) by (simp add: dict_of_distinct)
  with assms show ?thesis by (simp add: map_of_zip_nth)
qed

lemma dom_dict_of_zip:
  "length vs = length ks \<Longrightarrow> dom (dict_of (zip ks vs)) = set ks"
  by (simp add: dict_of_def dom_map_of_conv_image_fst set_map [symmetric] del: set_map)

lemma value_mapping_nth:
  assumes "distinct (column_ids ir)" and "i < length (ir_columns ir)"
  shows "value_mapping S y ir (fst (ir_columns ir ! i)) = Some (S (y + i))"
  using dict_of_zip_nth [of "column_ids ir" "map S [y..<y + length (column_ids ir)]" i] assms
  by (simp add: value_mapping_def column_ids_def)

lemma hidden_mapping_nth:
  assumes "distinct (hidden_column_ids ir)" and "i < length (hidden_ordering_columns ir)"
  shows "hidden_mapping G k ir (fst (hidden_ordering_columns ir ! i)) = Some (G ''hidden_'' (k + i))"
  using dict_of_zip_nth [of "hidden_column_ids ir" "map (G ''hidden_'') [k..<k + length (hidden_column_ids ir)]" i] assms
  by (simp add: hidden_mapping_def hidden_column_ids_def)

lemma dom_hidden_mapping: "dom (hidden_mapping G k ir) = set (hidden_column_ids ir)"
  by (simp add: hidden_mapping_def dom_dict_of_zip)

lemma dom_value_mapping: "dom (value_mapping S y ir) = set (column_ids ir)"
  by (simp add: value_mapping_def dom_dict_of_zip)

subsection \<open>The columns read from the combined table\<close>

lemma joined_columns_all2:
  "joined_columns T m cols = Inr out \<Longrightarrow>
   list_all2 (\<lambda>col c. m (fst col) = Some (fst c) \<and> (\<exists>d. snd c = TableColumn T (fst c) d)) cols out"
  unfolding joined_columns_def
  by (induction cols arbitrary: out)
     (auto simp: dict_getitem_def of_option_def table_getitem_def split: sum.splits option.splits)

lemma joined_columns_names:
  assumes "joined_columns T m cols = Inr out"
    and "\<And>i. i < length cols \<Longrightarrow> m (fst (cols ! i)) = Some (f i)"
  shows "map fst out = map f [0..<length cols]"
    and "list_all (\<lambda>c. \<exists>d. snd c = TableColumn T (fst c) d) out"
proof -
  from joined_columns_all2 [OF assms(1)] have
    a: "list_all2 (\<lambda>col c. m (fst col) = Some (fst c) \<and> (\<exists>d. snd c = TableColumn T (fst c) d)) cols out" .
  then have len: "length out = length cols" by (simp add: list_all2_lengthD)
  show "map fst out = map f [0..<length cols]"
  proof (rule nth_equalityI)
    show "length (map fst out) = length (map f [0..<length cols])" using len by simp
  next
    fix i assume "i < length (map fst out)"
    then have i: "i < length cols" using len by simp
    from list_all2_nthD [OF a i] have "m (fst (cols ! i)) = Some (fst (out ! i))" by simp
    with assms(2) [OF i] have "fst (out ! i) = f i" by simp
    with i len show "map fst out ! i = map f [0..<length cols] ! i" by simp
  qed
  show "list_all (\<lambda>c. \<exists>d. snd c = TableColumn T (fst c) d) out"
    unfolding list_all_iff
  proof
    fix c assume "c \<in> set out"
    then obtain i where i: "i < length out" "out ! i = c" by (auto simp: in_set_conv_nth)
    with len list_all2_nthD [OF a, of i] show "\<exists>d. snd c = TableColumn T (fst c) d" by auto
  qed
qed

lemma rename_columns:
  assumes "\<And>i. i < length cols \<Longrightarrow> m (fst (cols ! i)) = Some (f i)"
  shows "map (\<lambda>c. (rename m (fst c), snd c)) cols = zip (map f [0..<length cols]) (map snd cols)"
proof (rule nth_equalityI)
  show "length (map (\<lambda>c. (rename m (fst c), snd c)) cols) =
        length (zip (map f [0..<length cols]) (map snd cols))" by simp
next
  fix i assume "i < length (map (\<lambda>c. (rename m (fst c), snd c)) cols)"
  then have i: "i < length cols" by simp
  with assms [OF i] show "map (\<lambda>c. (rename m (fst c), snd c)) cols ! i =
        zip (map f [0..<length cols]) (map snd cols) ! i"
    by (simp add: rename_def)
qed

lemma map_shift: "map f [y..<y + n] = map (\<lambda>i. f (y + i)) [0..<n]"
  by (induction n) simp_all

subsection \<open>What a returned join is made of\<close>

lemma join_by_column_unordered_Inr:
  assumes "join_by_column_unordered S l r conds how = Inr res"
  obtains preds lcols rcols where
    "map_err (join_condition (to_ibis_expr l (value_mapping S 0 l))
        (to_ibis_expr r (value_mapping S (length (column_ids l)) r))) conds = Inr preds"
    "ir_table res = JoinChain (to_ibis_expr l (value_mapping S 0 l))
        (to_ibis_expr r (value_mapping S (length (column_ids l)) r)) preds how"
    "joined_columns (ir_table res) (value_mapping S 0 l) (ir_columns l) = Inr lcols"
    "joined_columns (ir_table res) (value_mapping S (length (column_ids l)) r) (ir_columns r) = Inr rcols"
    "ir_columns res = lcols @ rcols"
  using assms
  by (auto simp: join_by_column_unordered_def Let_def split: sum.splits)

lemma join_by_column_ordered_Inr:
  assumes "join_by_column_ordered S G k l r conds how = Inr res"
  obtains preds lcols rcols lhid rhid where
    "map_err (join_condition
        (to_ibis_expr_hidden l (value_mapping S 0 l ++ hidden_mapping G k l))
        (to_ibis_expr_hidden r (value_mapping S (length (column_ids l)) r ++
           hidden_mapping G (k + length (hidden_column_ids l)) r))) conds = Inr preds"
    "ir_table res = JoinChain
        (to_ibis_expr_hidden l (value_mapping S 0 l ++ hidden_mapping G k l))
        (to_ibis_expr_hidden r (value_mapping S (length (column_ids l)) r ++
           hidden_mapping G (k + length (hidden_column_ids l)) r)) preds how"
    "joined_columns (ir_table res) (value_mapping S 0 l ++ hidden_mapping G k l) (ir_columns l) = Inr lcols"
    "joined_columns (ir_table res)
        (value_mapping S (length (column_ids l)) r ++
           hidden_mapping G (k + length (hidden_column_ids l)) r) (ir_columns r) = Inr rcols"
    "joined_columns (ir_table res) (hidden_mapping G k l) (hidden_ordering_columns l) = Inr lhid"
    "joined_columns (ir_table res) (hidden_mapping G (k + length (hidden_column_ids l)) r)
        (hidden_ordering_columns r) = Inr rhid"
    "ir_columns res = lcols @ rcols"
    "hidden_ordering_columns res = lhid @ rhid"
    "ir_ordering res = join_orderings (ir_ordering l) (ir_ordering r)
        (value_mapping S 0 l ++ hidden_mapping G k l)
        (value_mapping S (length (column_ids l)) r ++
           hidden_mapping G (k + length (hidden_column_ids l)) r) (how \<noteq> Right)"
  using assms
  by (auto simp: join_by_column_ordered_def Let_def split: sum.splits)


subsection \<open>The two example joins\<close>

lemmas example_defs =
  unordered_l_def unordered_r_def ordered_l_def ordered_r_def table_l_def table_r_def
  col_identifier_def numbered_guid_def

lemmas join_defs =
  value_mapping_def hidden_mapping_def column_ids_def hidden_column_ids_def dict_of_def
  to_ibis_expr_def to_ibis_expr_hidden_def rename_def join_condition_def py_index_def
  tbl_columns_def table_getitem_def joined_columns_def dict_getitem_def of_option_def
  join_orderings_def remap_names_def

lemma unordered_join_example:
  "\<exists>res. join_by_column_unordered col_identifier unordered_l unordered_r [(0, 0)] how = Inr res \<and>
     map fst (ir_columns res) = [''col_0'', ''col_1'', ''col_2'']"
  by (simp add: join_by_column_unordered_def example_defs join_defs str_nat.simps upt_rec_numeral Let_def)

lemma ordered_join_example:
  "\<exists>res. join_by_column_ordered col_identifier numbered_guid 0 ordered_l ordered_r [(0, 0)] how = Inr res"
  by (simp add: join_by_column_ordered_def example_defs join_defs str_nat.simps upt_rec_numeral Let_def)


subsection \<open>Output columns\<close>

lemma add_mapping_visible:
  assumes "distinct (column_ids ir @ hidden_column_ids ir)" and "i < length (ir_columns ir)"
  shows "(value_mapping S y ir ++ hidden_mapping G k ir) (fst (ir_columns ir ! i)) = Some (S (y + i))"
proof -
  from assms(2) have "fst (ir_columns ir ! i) \<in> set (column_ids ir)"
    by (simp add: column_ids_def)
  with assms(1) have "fst (ir_columns ir ! i) \<notin> set (hidden_column_ids ir)"
    by auto
  then have "fst (ir_columns ir ! i) \<notin> dom (hidden_mapping G k ir)"
    by (simp add: dom_hidden_mapping)
  moreover from assms have "value_mapping S y ir (fst (ir_columns ir ! i)) = Some (S (y + i))"
    by (simp add: value_mapping_nth)
  ultimately show ?thesis by (simp add: map_add_dom_app_simps)
qed

lemma add_mapping_all:
  assumes "distinct (column_ids ir @ hidden_column_ids ir)"
    and "i < length (ir_columns ir @ hidden_ordering_columns ir)"
  shows "(value_mapping S y ir ++ hidden_mapping G k ir)
           (fst ((ir_columns ir @ hidden_ordering_columns ir) ! i)) =
         Some ((map (\<lambda>j. S (y + j)) [0..<length (ir_columns ir)] @
                map (\<lambda>j. G ''hidden_'' (k + j)) [0..<length (hidden_ordering_columns ir)]) ! i)"
proof (cases "i < length (ir_columns ir)")
  case True
  with add_mapping_visible [OF assms(1) True, of S y G k] show ?thesis
    by (simp add: nth_append)
next
  case False
  let ?j = "i - length (ir_columns ir)"
  from False assms(2) have j: "?j < length (hidden_ordering_columns ir)" by simp
  from assms(1) have "distinct (hidden_column_ids ir)" by simp
  from hidden_mapping_nth [OF this j, of G k]
  have "(value_mapping S y ir ++ hidden_mapping G k ir) (fst (hidden_ordering_columns ir ! ?j)) =
        Some (G ''hidden_'' (k + ?j))"
    by (simp add: map_add_Some_iff)
  with False j show ?thesis by (simp add: nth_append)
qed

text \<open>
  C5: for compiled inputs (whose column names, hidden ones included, are distinct) and
  every join kind, when a join compiler returns, its output columns are named by the
  fresh identifiers in the order they were drawn, one per left column and then one per
  right column, as many as there are columns on both sides; each output column is the
  column of that name of the joined table; and under these names the joined table holds
  the left columns in their order and the right columns in their order.
\<close>

theorem join_by_column_output_columns:
  "(distinct (column_ids l) \<and> distinct (column_ids r) \<and>
    join_by_column_unordered S l r conds how = Inr res \<longrightarrow>
      map fst (ir_columns res) =
        map S [0..<length (ir_columns l)] @
        map (\<lambda>j. S (length (ir_columns l) + j)) [0..<length (ir_columns r)] \<and>
      list_all (\<lambda>c. \<exists>d. snd c = TableColumn (ir_table res) (fst c) d) (ir_columns res) \<and>
      (\<exists>preds. ir_table res =
         JoinChain
           (Project (ir_table l) (zip (map S [0..<length (ir_columns l)]) (map snd (ir_columns l))))
           (Project (ir_table r)
              (zip (map (\<lambda>j. S (length (ir_columns l) + j)) [0..<length (ir_columns r)])
                   (map snd (ir_columns r))))
           preds how)) \<and>
   (distinct (column_ids lo @ hidden_column_ids lo) \<and>
    distinct (column_ids ro @ hidden_column_ids ro) \<and>
    join_by_column_ordered S G k lo ro conds how = Inr reso \<longrightarrow>
      map fst (ir_columns reso) =
        map S [0..<length (ir_columns lo)] @
        map (\<lambda>j. S (length (ir_columns lo) + j)) [0..<length (ir_columns ro)] \<and>
      list_all (\<lambda>c. \<exists>d. snd c = TableColumn (ir_table reso) (fst c) d) (ir_columns reso) \<and>
      (\<exists>preds. ir_table reso =
         JoinChain
           (Project (ir_table lo)
              (zip (map S [0..<length (ir_columns lo)] @
                    map (\<lambda>j. G ''hidden_'' (k + j)) [0..<length (hidden_ordering_columns lo)])
                   (map snd (ir_columns lo @ hidden_ordering_columns lo))))
           (Project (ir_table ro)
              (zip (map (\<lambda>j. S (length (ir_columns lo) + j)) [0..<length (ir_columns ro)] @
                    map (\<lambda>j. G ''hidden_'' (k + length (hidden_ordering_columns lo) + j))
                      [0..<length (hidden_ordering_columns ro)])
                   (map snd (ir_columns ro @ hidden_ordering_columns ro))))
           preds how))"
proof (intro conjI impI)
  assume h: "distinct (column_ids l) \<and> distinct (column_ids r) \<and>
    join_by_column_unordered S l r conds how = Inr res"
  let ?nl = "length (ir_columns l)"
  let ?lm = "value_mapping S 0 l"
  let ?rm = "value_mapping S (length (column_ids l)) r"
  from h obtain preds lcols rcols where
    t: "ir_table res = JoinChain (to_ibis_expr l ?lm) (to_ibis_expr r ?rm) preds how" and
    lc: "joined_columns (ir_table res) ?lm (ir_columns l) = Inr lcols" and
    rc: "joined_columns (ir_table res) ?rm (ir_columns r) = Inr rcols" and
    c: "ir_columns res = lcols @ rcols"
    by (auto elim: join_by_column_unordered_Inr)
  have lm: "?lm (fst (ir_columns l ! i)) = Some (S i)" if "i < length (ir_columns l)" for i
    using value_mapping_nth [of l i S 0] h that by simp
  have rm: "?rm (fst (ir_columns r ! i)) = Some (S (?nl + i))" if "i < length (ir_columns r)" for i
    using value_mapping_nth [of r i S "length (column_ids l)"] h that by (simp add: column_ids_def)
  note ln = joined_columns_names [OF lc lm]
  note rn = joined_columns_names [OF rc rm]
  from ln(1) rn(1) c show "map fst (ir_columns res) =
        map S [0..<?nl] @ map (\<lambda>j. S (?nl + j)) [0..<length (ir_columns r)]"
    by simp
  from ln(2) rn(2) c
  show "list_all (\<lambda>c. \<exists>d. snd c = TableColumn (ir_table res) (fst c) d) (ir_columns res)"
    by simp
  from t rename_columns [of "ir_columns l" ?lm S, OF lm]
       rename_columns [of "ir_columns r" ?rm "\<lambda>j. S (?nl + j)", OF rm]
  show "\<exists>preds. ir_table res =
         JoinChain
           (Project (ir_table l) (zip (map S [0..<?nl]) (map snd (ir_columns l))))
           (Project (ir_table r)
              (zip (map (\<lambda>j. S (?nl + j)) [0..<length (ir_columns r)]) (map snd (ir_columns r))))
           preds how"
    by (simp add: to_ibis_expr_def)
next
  assume h: "distinct (column_ids lo @ hidden_column_ids lo) \<and>
    distinct (column_ids ro @ hidden_column_ids ro) \<and>
    join_by_column_ordered S G k lo ro conds how = Inr reso"
  let ?nl = "length (ir_columns lo)"
  let ?hl = "length (hidden_ordering_columns lo)"
  let ?lm = "value_mapping S 0 lo ++ hidden_mapping G k lo"
  let ?rm = "value_mapping S (length (column_ids lo)) ro ++
             hidden_mapping G (k + length (hidden_column_ids lo)) ro"
  from h obtain preds lcols rcols where
    t: "ir_table reso = JoinChain (to_ibis_expr_hidden lo ?lm) (to_ibis_expr_hidden ro ?rm) preds how" and
    lc: "joined_columns (ir_table reso) ?lm (ir_columns lo) = Inr lcols" and
    rc: "joined_columns (ir_table reso) ?rm (ir_columns ro) = Inr rcols" and
    c: "ir_columns reso = lcols @ rcols"
    by (auto elim: join_by_column_ordered_Inr)
  from h have dl: "distinct (column_ids lo @ hidden_column_ids lo)"
    and dr: "distinct (column_ids ro @ hidden_column_ids ro)" by simp_all
  have lm: "?lm (fst (ir_columns lo ! i)) = Some (S i)" if "i < length (ir_columns lo)" for i
    using add_mapping_visible [OF dl that, of S 0 G k] by simp
  have rm: "?rm (fst (ir_columns ro ! i)) = Some (S (?nl + i))" if "i < length (ir_columns ro)" for i
    using add_mapping_visible [OF dr that, of S "length (column_ids lo)" G "k + length (hidden_column_ids lo)"]
    by (simp add: column_ids_def)
  note ln = joined_columns_names [OF lc lm]
  note rn = joined_columns_names [OF rc rm]
  from ln(1) rn(1) c show "map fst (ir_columns reso) =
        map S [0..<?nl] @ map (\<lambda>j. S (?nl + j)) [0..<length (ir_columns ro)]"
    by simp
  from ln(2) rn(2) c
  show "list_all (\<lambda>c. \<exists>d. snd c = TableColumn (ir_table reso) (fst c) d) (ir_columns reso)"
    by simp
  have la: "?lm (fst ((ir_columns lo @ hidden_ordering_columns lo) ! i)) =
       Some ((map S [0..<?nl] @ map (\<lambda>j. G ''hidden_'' (k + j)) [0..<?hl]) ! i)"
    if "i < length (ir_columns lo @ hidden_ordering_columns lo)" for i
    using add_mapping_all [OF dl that, of S 0 G k] by simp
  have ra: "?rm (fst ((ir_columns ro @ hidden_ordering_columns ro) ! i)) =
       Some ((map (\<lambda>j. S (?nl + j)) [0..<length (ir_columns ro)] @
              map (\<lambda>j. G ''hidden_'' (k + ?hl + j)) [0..<length (hidden_ordering_columns ro)]) ! i)"
    if "i < length (ir_columns ro @ hidden_ordering_columns ro)" for i
    using add_mapping_all [OF dr that, of S "length (column_ids lo)" G "k + length (hidden_column_ids lo)"]
    by (simp add: column_ids_def hidden_column_ids_def)
  have nth_upt: "map (\<lambda>i. xs ! i) [0..<length xs] = xs" for xs :: "string list"
    by (simp add: map_nth)
  have lren: "map (\<lambda>c. (rename ?lm (fst c), snd c)) (ir_columns lo @ hidden_ordering_columns lo) =
     zip (map S [0..<?nl] @ map (\<lambda>j. G ''hidden_'' (k + j)) [0..<?hl])
         (map snd (ir_columns lo @ hidden_ordering_columns lo))"
    using rename_columns [of "ir_columns lo @ hidden_ordering_columns lo" ?lm
            "\<lambda>i. (map S [0..<?nl] @ map (\<lambda>j. G ''hidden_'' (k + j)) [0..<?hl]) ! i", OF la]
          nth_upt [of "map S [0..<?nl] @ map (\<lambda>j. G ''hidden_'' (k + j)) [0..<?hl]"]
    by simp
  have rren: "map (\<lambda>c. (rename ?rm (fst c), snd c)) (ir_columns ro @ hidden_ordering_columns ro) =
     zip (map (\<lambda>j. S (?nl + j)) [0..<length (ir_columns ro)] @
          map (\<lambda>j. G ''hidden_'' (k + ?hl + j)) [0..<length (hidden_ordering_columns ro)])
         (map snd (ir_columns ro @ hidden_ordering_columns ro))"
    using rename_columns [of "ir_columns ro @ hidden_ordering_columns ro" ?rm
            "\<lambda>i. (map (\<lambda>j. S (?nl + j)) [0..<length (ir_columns ro)] @
              map (\<lambda>j. G ''hidden_'' (k + ?hl + j)) [0..<length (hidden_ordering_columns ro)]) ! i", OF ra]
          nth_upt [of "map (\<lambda>j. S (?nl + j)) [0..<length (ir_columns ro)] @
              map (\<lambda>j. G ''hidden_'' (k + ?hl + j)) [0..<length (hidden_ordering_columns ro)]"]
    by simp
  from t lren rren show "\<exists>preds. ir_table reso =
         JoinChain
           (Project (ir_table lo)
              (zip (map S [0..<?nl] @ map (\<lambda>j. G ''hidden_'' (k + j)) [0..<?hl])
                   (map snd (ir_columns lo @ hidden_ordering_columns lo))))
           (Project (ir_table ro)
              (zip (map (\<lambda>j. S (?nl + j)) [0..<length (ir_columns ro)] @
                    map (\<lambda>j. G ''hidden_'' (k + ?hl + j)) [0..<length (hidden_ordering_columns ro)])
                   (map snd (ir_columns ro @ hidden_ordering_columns ro))))
           preds how"
    by (simp add: to_ibis_expr_hidden_def)
qed


lemma example_distinct:
  "distinct (column_ids unordered_l)" "distinct (column_ids unordered_r)"
  "distinct (column_ids ordered_l @ hidden_column_ids ordered_l)"
  "distinct (column_ids ordered_r @ hidden_column_ids ordered_r)"
  by (simp_all add: example_defs column_ids_def hidden_column_ids_def)

theorem join_by_column_output_columns_witness:
  "(\<exists>res. join_by_column_unordered col_identifier unordered_l unordered_r [(0, 0)] Inner = Inr res \<and>
      map fst (ir_columns res) = [''col_0'', ''col_1'', ''col_2'']) \<and>
   (\<exists>reso. join_by_column_ordered col_identifier numbered_guid 0 ordered_l ordered_r [(0, 0)] Inner
        = Inr reso \<and>
      map fst (ir_columns reso) = [''col_0'', ''col_1'', ''col_2''])"
proof -
  from unordered_join_example [of Inner] obtain res where
    r: "join_by_column_unordered col_identifier unordered_l unordered_r [(0, 0)] Inner = Inr res"
    by blast
  from ordered_join_example [of Inner] obtain reso where
    ro: "join_by_column_ordered col_identifier numbered_guid 0 ordered_l ordered_r [(0, 0)] Inner
          = Inr reso"
    by blast
  from join_by_column_output_columns
         [of unordered_l unordered_r col_identifier "[(0, 0)]" Inner res
             ordered_l ordered_r numbered_guid 0 reso]
       r ro example_distinct
  have "map fst (ir_columns res) =
          map col_identifier [0..<length (ir_columns unordered_l)] @
          map (\<lambda>j. col_identifier (length (ir_columns unordered_l) + j))
            [0..<length (ir_columns unordered_r)]"
    and "map fst (ir_columns reso) =
          map col_identifier [0..<length (ir_columns ordered_l)] @
          map (\<lambda>j. col_identifier (length (ir_columns ordered_l) + j))
            [0..<length (ir_columns ordered_r)]"
    by blast+
  then have "map fst (ir_columns res) = [''col_0'', ''col_1'', ''col_2'']"
    and "map fst (ir_columns reso) = [''col_0'', ''col_1'', ''col_2'']"
    by (simp_all add: example_defs str_nat.simps upt_rec_numeral)
  with r ro show ?thesis by simp
qed

subsection \<open>The merged ordering\<close>

text \<open>
  C7: the ordering of an ordered join is \<^verbatim>\<open>join_orderings\<close> of the two sides' orderings with
  \<^verbatim>\<open>left_order_dominates\<close> true for every join kind but \<open>Right\<close>: the renamed ordering
  expressions of the left side come first, those of the right side after them, and the
  other way round for a right join.
\<close>

theorem join_by_column_ordered_ordering:
  "join_by_column_ordered S G k l r conds how = Inr res \<longrightarrow>
     ir_ordering res =
       join_orderings (ir_ordering l) (ir_ordering r)
         (value_mapping S 0 l ++ hidden_mapping G k l)
         (value_mapping S (length (column_ids l)) r ++
            hidden_mapping G (k + length (hidden_column_ids l)) r)
         (how \<noteq> Right) \<and>
     ir_ordering res =
       (if how = Right
        then map (remap_names (value_mapping S (length (column_ids l)) r ++
                    hidden_mapping G (k + length (hidden_column_ids l)) r)) (ir_ordering r) @
             map (remap_names (value_mapping S 0 l ++ hidden_mapping G k l)) (ir_ordering l)
        else map (remap_names (value_mapping S 0 l ++ hidden_mapping G k l)) (ir_ordering l) @
             map (remap_names (value_mapping S (length (column_ids l)) r ++
                    hidden_mapping G (k + length (hidden_column_ids l)) r)) (ir_ordering r))"
proof
  assume "join_by_column_ordered S G k l r conds how = Inr res"
  then have o: "ir_ordering res =
       join_orderings (ir_ordering l) (ir_ordering r)
         (value_mapping S 0 l ++ hidden_mapping G k l)
         (value_mapping S (length (column_ids l)) r ++
            hidden_mapping G (k + length (hidden_column_ids l)) r)
         (how \<noteq> Right)"
    by (auto elim: join_by_column_ordered_Inr)
  then show "ir_ordering res =
       join_orderings (ir_ordering l) (ir_ordering r)
         (value_mapping S 0 l ++ hidden_mapping G k l)
         (value_mapping S (length (column_ids l)) r ++
            hidden_mapping G (k + length (hidden_column_ids l)) r)
         (how \<noteq> Right) \<and>
     ir_ordering res =
       (if how = Right
        then map (remap_names (value_mapping S (length (column_ids l)) r ++
                    hidden_mapping G (k + length (hidden_column_ids l)) r)) (ir_ordering r) @
             map (remap_names (value_mapping S 0 l ++ hidden_mapping G k l)) (ir_ordering l)
        else map (remap_names (value_mapping S 0 l ++ hidden_mapping G k l)) (ir_ordering l) @
             map (remap_names (value_mapping S (length (column_ids l)) r ++
                    hidden_mapping G (k + length (hidden_column_ids l)) r)) (ir_ordering r))"
    by (simp add: join_orderings_def Let_def)
qed

lemma example_remap:
  "map (remap_names (value_mapping col_identifier 0 ordered_l ++ hidden_mapping numbered_guid 0 ordered_l))
     (ir_ordering ordered_l) = [OrderingExpression [''hidden_0''] True True]"
  "map (remap_names (value_mapping col_identifier (length (column_ids ordered_l)) ordered_r ++
          hidden_mapping numbered_guid (length (hidden_column_ids ordered_l)) ordered_r))
     (ir_ordering ordered_r) = [OrderingExpression [''hidden_1''] True True]"
  by (simp_all add: example_defs join_defs str_nat.simps map_add_def)

theorem join_by_column_ordered_ordering_witness:
  "(\<exists>res. join_by_column_ordered col_identifier numbered_guid 0 ordered_l ordered_r [(0, 0)] Left
        = Inr res \<and>
      ir_ordering res = [OrderingExpression [''hidden_0''] True True,
                         OrderingExpression [''hidden_1''] True True]) \<and>
   (\<exists>res. join_by_column_ordered col_identifier numbered_guid 0 ordered_l ordered_r [(0, 0)] Right
        = Inr res \<and>
      ir_ordering res = [OrderingExpression [''hidden_1''] True True,
                         OrderingExpression [''hidden_0''] True True])"
proof -
  from ordered_join_example [of Left] obtain res1 where
    r1: "join_by_column_ordered col_identifier numbered_guid 0 ordered_l ordered_r [(0, 0)] Left
          = Inr res1"
    by blast
  from ordered_join_example [of Right] obtain res2 where
    r2: "join_by_column_ordered col_identifier numbered_guid 0 ordered_l ordered_r [(0, 0)] Right
          = Inr res2"
    by blast
  from join_by_column_ordered_ordering
         [of col_identifier numbered_guid 0 ordered_l ordered_r "[(0, 0)]" Left res1] r1
  have "ir_ordering res1 =
       (if Left = Right
        then map (remap_names (value_mapping col_identifier (length (column_ids ordered_l)) ordered_r ++
                    hidden_mapping numbered_guid (0 + length (hidden_column_ids ordered_l)) ordered_r))
               (ir_ordering ordered_r) @
             map (remap_names (value_mapping col_identifier 0 ordered_l ++
                    hidden_mapping numbered_guid 0 ordered_l)) (ir_ordering ordered_l)
        else map (remap_names (value_mapping col_identifier 0 ordered_l ++
                    hidden_mapping numbered_guid 0 ordered_l)) (ir_ordering ordered_l) @
             map (remap_names (value_mapping col_identifier (length (column_ids ordered_l)) ordered_r ++
                    hidden_mapping numbered_guid (0 + length (hidden_column_ids ordered_l)) ordered_r))
               (ir_ordering ordered_r))"
    by blast
  then have o1: "ir_ordering res1 = [OrderingExpression [''hidden_0''] True True,
                                     OrderingExpression [''hidden_1''] True True]"
    by (simp add: example_remap)
  from join_by_column_ordered_ordering
         [of col_identifier numbered_guid 0 ordered_l ordered_r "[(0, 0)]" Right res2] r2
  have "ir_ordering res2 =
       (if Right = Right
        then map (remap_names (value_mapping col_identifier (length (column_ids ordered_l)) ordered_r ++
                    hidden_mapping numbered_guid (0 + length (hidden_column_ids ordered_l)) ordered_r))
               (ir_ordering ordered_r) @
             map (remap_names (value_mapping col_identifier 0 ordered_l ++
                    hidden_mapping numbered_guid 0 ordered_l)) (ir_ordering ordered_l)
        else map (remap_names (value_mapping col_identifier 0 ordered_l ++
                    hidden_mapping numbered_guid 0 ordered_l)) (ir_ordering ordered_l) @
             map (remap_names (value_mapping col_identifier (length (column_ids ordered_l)) ordered_r ++
                    hidden_mapping numbered_guid (0 + length (hidden_column_ids ordered_l)) ordered_r))
               (ir_ordering ordered_r))"
    by blast
  then have o2: "ir_ordering res2 = [OrderingExpression [''hidden_1''] True True,
                                     OrderingExpression [''hidden_0''] True True]"
    by (simp add: example_remap)
  from r1 o1 r2 o2 show ?thesis by simp
qed

subsection \<open>When the join compilers return\<close>

text \<open>
  With every condition's positions within the visible columns of its side, both compilers
  return a result.
\<close>

lemma py_index_in_range:
  "in_range xs i \<Longrightarrow> \<exists>x \<in> set xs. py_index xs i = Inr x"
  by (auto simp: in_range_def py_index_def)

lemma table_getitem_column:
  "n \<in> set (tbl_columns t) \<Longrightarrow> \<exists>d. table_getitem t n = Inr (TableColumn t n d)"
  by (auto simp: tbl_columns_def table_getitem_def split: option.splits
       dest: weak_map_of_SomeI)

lemma join_condition_returns:
  assumes "in_range (tbl_columns lt) (fst c)" and "in_range (tbl_columns rt) (snd c)"
  shows "\<exists>p. join_condition lt rt c = Inr p"
proof -
  from py_index_in_range [OF assms(1)] obtain ln where
    l: "ln \<in> set (tbl_columns lt)" "py_index (tbl_columns lt) (fst c) = Inr ln" by blast
  from py_index_in_range [OF assms(2)] obtain rn where
    r: "rn \<in> set (tbl_columns rt)" "py_index (tbl_columns rt) (snd c) = Inr rn" by blast
  from table_getitem_column [OF l(1)] table_getitem_column [OF r(1)] l(2) r(2)
  show ?thesis by (auto simp: join_condition_def)
qed

lemma map_err_returns:
  "(\<And>x. x \<in> set xs \<Longrightarrow> \<exists>y. f x = Inr y) \<Longrightarrow> \<exists>ys. map_err f xs = Inr ys"
proof (induction xs)
  case Nil
  then show ?case by simp
next
  case (Cons x xs)
  then obtain y ys where "f x = Inr y" "map_err f xs = Inr ys" by (metis list.set_intros)
  then show ?case by simp
qed

lemma joined_columns_returns:
  assumes "\<And>c. c \<in> set cols \<Longrightarrow> \<exists>n. m (fst c) = Some n \<and> n \<in> set (tbl_columns T)"
  shows "\<exists>out. joined_columns T m cols = Inr out"
  unfolding joined_columns_def
proof (rule map_err_returns)
  fix c assume "c \<in> set cols"
  from assms [OF this] obtain n where n: "m (fst c) = Some n" "n \<in> set (tbl_columns T)" by blast
  from table_getitem_column [OF n(2)] n(1)
  show "\<exists>y. (case dict_getitem m (fst c) of Inl e \<Rightarrow> Inl e
        | Inr new_name \<Rightarrow>
            (case table_getitem T new_name of Inl e \<Rightarrow> Inl e
             | Inr v \<Rightarrow> Inr (new_name, v))) = Inr y"
    by (auto simp: dict_getitem_def of_option_def)
qed

lemma to_ibis_expr_columns:
  "tbl_columns (to_ibis_expr ir m) = map (rename m) (column_ids ir)"
  by (simp add: to_ibis_expr_def tbl_columns_def column_ids_def comp_def)

lemma value_mapping_Some:
  assumes "c \<in> set (ir_columns ir)"
  shows "\<exists>n. value_mapping S y ir (fst c) = Some n \<and> n = rename (value_mapping S y ir) (fst c)"
proof -
  from assms have "fst c \<in> dom (value_mapping S y ir)"
    by (simp add: dom_value_mapping column_ids_def)
  then show ?thesis by (auto simp: rename_def)
qed

lemma join_by_column_unordered_returns:
  assumes "list_all (\<lambda>c. in_range (ir_columns l) (fst c) \<and> in_range (ir_columns r) (snd c)) conds"
  shows "\<exists>res. join_by_column_unordered S l r conds how = Inr res"
proof -
  let ?lm = "value_mapping S 0 l"
  let ?rm = "value_mapping S (length (column_ids l)) r"
  let ?lt = "to_ibis_expr l ?lm" and ?rt = "to_ibis_expr r ?rm"
  have "\<exists>p. join_condition ?lt ?rt c = Inr p" if "c \<in> set conds" for c
  proof (rule join_condition_returns)
    from assms that show "in_range (tbl_columns ?lt) (fst c)"
      by (auto simp: list_all_iff in_range_def to_ibis_expr_columns column_ids_def)
    from assms that show "in_range (tbl_columns ?rt) (snd c)"
      by (auto simp: list_all_iff in_range_def to_ibis_expr_columns column_ids_def)
  qed
  from map_err_returns [of conds "join_condition ?lt ?rt", OF this] obtain preds where
    p: "map_err (join_condition ?lt ?rt) conds = Inr preds" by blast
  let ?T = "JoinChain ?lt ?rt preds how"
  have cols: "set (tbl_columns ?T) =
      (\<lambda>c. rename ?lm (fst c)) ` set (ir_columns l) \<union> (\<lambda>c. rename ?rm (fst c)) ` set (ir_columns r)"
    by (auto simp: tbl_columns_def to_ibis_expr_def)
  have "\<exists>n. ?lm (fst c) = Some n \<and> n \<in> set (tbl_columns ?T)" if "c \<in> set (ir_columns l)" for c
    using value_mapping_Some [OF that, of S 0] that unfolding cols by auto
  from joined_columns_returns [of "ir_columns l" ?lm ?T, OF this] obtain lcols where
    lc: "joined_columns ?T ?lm (ir_columns l) = Inr lcols" by blast
  have "\<exists>n. ?rm (fst c) = Some n \<and> n \<in> set (tbl_columns ?T)" if "c \<in> set (ir_columns r)" for c
    using value_mapping_Some [OF that, of S "length (column_ids l)"] that
    unfolding cols by auto
  from joined_columns_returns [of "ir_columns r" ?rm ?T, OF this] obtain rcols where
    rc: "joined_columns ?T ?rm (ir_columns r) = Inr rcols" by blast
  from p lc rc show ?thesis
    by (simp add: join_by_column_unordered_def Let_def)
qed


lemma add_mapping_Some:
  assumes "c \<in> set (ir_columns ir @ hidden_ordering_columns ir)"
  shows "\<exists>n. (value_mapping S y ir ++ hidden_mapping G k ir) (fst c) = Some n \<and>
             n = rename (value_mapping S y ir ++ hidden_mapping G k ir) (fst c)"
proof (cases "hidden_mapping G k ir (fst c)")
  case (Some n)
  then show ?thesis by (simp add: rename_def map_add_def)
next
  case None
  then have "fst c \<notin> dom (hidden_mapping G k ir)" by (simp add: domIff)
  then have "fst c \<notin> set (hidden_column_ids ir)" by (simp add: dom_hidden_mapping)
  with assms have "fst c \<in> set (column_ids ir)"
    by (auto simp: column_ids_def hidden_column_ids_def)
  then have "fst c \<in> dom (value_mapping S y ir)" by (simp add: dom_value_mapping)
  then obtain n where "value_mapping S y ir (fst c) = Some n" by (auto simp: domIff)
  with None show ?thesis by (simp add: rename_def map_add_def)
qed

lemma hidden_mapping_Some:
  assumes "c \<in> set (hidden_ordering_columns ir)"
  shows "\<exists>n. hidden_mapping G k ir (fst c) = Some n \<and>
             n = rename (value_mapping S y ir ++ hidden_mapping G k ir) (fst c)"
proof -
  from assms have "fst c \<in> dom (hidden_mapping G k ir)"
    by (simp add: dom_hidden_mapping hidden_column_ids_def)
  then show ?thesis by (auto simp: rename_def map_add_def)
qed

lemma join_by_column_ordered_returns:
  assumes "list_all (\<lambda>c. in_range (ir_columns l) (fst c) \<and> in_range (ir_columns r) (snd c)) conds"
  shows "\<exists>res. join_by_column_ordered S G k l r conds how = Inr res"
proof -
  let ?lh = "hidden_mapping G k l"
  let ?rh = "hidden_mapping G (k + length (hidden_column_ids l)) r"
  let ?lm = "value_mapping S 0 l ++ ?lh"
  let ?rm = "value_mapping S (length (column_ids l)) r ++ ?rh"
  let ?lt = "to_ibis_expr_hidden l ?lm" and ?rt = "to_ibis_expr_hidden r ?rm"
  have "\<exists>p. join_condition ?lt ?rt c = Inr p" if "c \<in> set conds" for c
  proof (rule join_condition_returns)
    from assms that show "in_range (tbl_columns ?lt) (fst c)"
      by (auto simp: list_all_iff in_range_def tbl_columns_def to_ibis_expr_hidden_def)
    from assms that show "in_range (tbl_columns ?rt) (snd c)"
      by (auto simp: list_all_iff in_range_def tbl_columns_def to_ibis_expr_hidden_def)
  qed
  from map_err_returns [of conds "join_condition ?lt ?rt", OF this] obtain preds where
    p: "map_err (join_condition ?lt ?rt) conds = Inr preds" by blast
  let ?T = "JoinChain ?lt ?rt preds how"
  have cols: "set (tbl_columns ?T) =
      (\<lambda>c. rename ?lm (fst c)) ` set (ir_columns l @ hidden_ordering_columns l) \<union>
      (\<lambda>c. rename ?rm (fst c)) ` set (ir_columns r @ hidden_ordering_columns r)"
    by (auto simp: tbl_columns_def to_ibis_expr_hidden_def)
  have "\<exists>n. ?lm (fst c) = Some n \<and> n \<in> set (tbl_columns ?T)" if "c \<in> set (ir_columns l)" for c
    using add_mapping_Some [of c l S 0 G k] that unfolding cols by auto
  from joined_columns_returns [of "ir_columns l" ?lm ?T, OF this] obtain lcols where
    lc: "joined_columns ?T ?lm (ir_columns l) = Inr lcols" by blast
  have "\<exists>n. ?rm (fst c) = Some n \<and> n \<in> set (tbl_columns ?T)" if "c \<in> set (ir_columns r)" for c
    using add_mapping_Some [of c r S "length (column_ids l)" G "k + length (hidden_column_ids l)"] that
    unfolding cols by auto
  from joined_columns_returns [of "ir_columns r" ?rm ?T, OF this] obtain rcols where
    rc: "joined_columns ?T ?rm (ir_columns r) = Inr rcols" by blast
  have "\<exists>n. ?lh (fst c) = Some n \<and> n \<in> set (tbl_columns ?T)"
    if "c \<in> set (hidden_ordering_columns l)" for c
    using hidden_mapping_Some [OF that, of G k S 0] that unfolding cols by auto
  from joined_columns_returns [of "hidden_ordering_columns l" ?lh ?T, OF this] obtain lhid where
    lh: "joined_columns ?T ?lh (hidden_ordering_columns l) = Inr lhid" by blast
  have "\<exists>n. ?rh (fst c) = Some n \<and> n \<in> set (tbl_columns ?T)"
    if "c \<in> set (hidden_ordering_columns r)" for c
    using hidden_mapping_Some [OF that, of G "k + length (hidden_column_ids l)" S "length (column_ids l)"] that
    unfolding cols by auto
  from joined_columns_returns [of "hidden_ordering_columns r" ?rh ?T, OF this] obtain rhid where
    rh: "joined_columns ?T ?rh (hidden_ordering_columns r) = Inr rhid" by blast
  from p lc rc lh rh show ?thesis
    by (simp add: join_by_column_ordered_def Let_def)
qed

end
